theory Spec2Isabelle
  imports Main
begin

section \<open>JavaScript objects and strings\<close>

text \<open>
  The mod checker of \<^verbatim>\<open>src/orig.js\<close> (class \<^verbatim>\<open>modFileChecker\<close>) keeps its flags and
  quotas in plain JavaScript objects. Such an object is an association list in insertion
  order: assigning to a key that exists replaces its value in place, assigning to a new key
  appends it.
\<close>

type_synonym 'v jsobj = "(string \<times> 'v) list"

fun obj_set :: "'v jsobj \<Rightarrow> string \<Rightarrow> 'v \<Rightarrow> 'v jsobj" where
  "obj_set [] k v = [(k, v)]"
| "obj_set ((k', v') # kvs) k v =
     (if k' = k then (k', v) # kvs else (k', v') # obj_set kvs k v)"

definition obj_get :: "'v jsobj \<Rightarrow> string \<Rightarrow> 'v option" where
  "obj_get m k = map_of m k"

definition obj_keys :: "'v jsobj \<Rightarrow> string list" where
  "obj_keys m = map fst m"

text \<open>The spread \<^verbatim>\<open>{...a, ...b}\<close>: the entries of \<^verbatim>\<open>b\<close> assigned onto \<^verbatim>\<open>a\<close> in order.\<close>

definition obj_spread :: "'v jsobj \<Rightarrow> 'v jsobj \<Rightarrow> 'v jsobj" where
  "obj_spread a b = foldl (\<lambda>acc kv. obj_set acc (fst kv) (snd kv)) a b"

text \<open>\<^verbatim>\<open>Object.entries(o).some((x) => x[1] === true)\<close>\<close>

definition some_true :: "bool jsobj \<Rightarrow> bool" where
  "some_true m = list_ex snd m"

text \<open>\<^verbatim>\<open>Object.entries(o).filter((x) => x[1] === true).map((x) => x[0])\<close>\<close>

definition true_keys :: "bool jsobj \<Rightarrow> string list" where
  "true_keys m = map fst (filter snd m)"

text \<open>The truthiness of \<^verbatim>\<open>o[k]\<close> for an object of booleans (a missing key is undefined).\<close>

definition flag_set :: "bool jsobj \<Rightarrow> string \<Rightarrow> bool" where
  "flag_set m k = (obj_get m k = Some True)"

text \<open>String methods: \<^verbatim>\<open>endsWith\<close>, \<^verbatim>\<open>startsWith\<close>, \<^verbatim>\<open>includes\<close>.\<close>

definition endsWith :: "string \<Rightarrow> string \<Rightarrow> bool" where
  "endsWith s p = (length p \<le> length s \<and> drop (length s - length p) s = p)"

definition startsWith :: "string \<Rightarrow> string \<Rightarrow> bool" where
  "startsWith s p = (take (length p) s = p)"

fun str_includes :: "string \<Rightarrow> string \<Rightarrow> bool" where
  "str_includes [] p = (p = [])"
| "str_includes (c # cs) p = (startsWith (c # cs) p \<or> str_includes cs p)"

text \<open>Character classes of the regular expressions (without the unicode flag they are
  ASCII only): \<^verbatim>\<open>\d\<close>, \<^verbatim>\<open>[A-Za-z]\<close>, \<^verbatim>\<open>\w\<close>, and the line terminators that \<^verbatim>\<open>.\<close>
  refuses.\<close>

definition upper_chars :: string where
  "upper_chars = ''ABCDEFGHIJKLMNOPQRSTUVWXYZ''"

definition lower_chars :: string where
  "lower_chars = ''abcdefghijklmnopqrstuvwxyz''"

definition is_digit :: "char \<Rightarrow> bool" where
  "is_digit c = (c \<in> set ''0123456789'')"

definition is_alpha :: "char \<Rightarrow> bool" where
  "is_alpha c = (c \<in> set upper_chars \<or> c \<in> set lower_chars)"

definition is_word :: "char \<Rightarrow> bool" where
  "is_word c = (is_alpha c \<or> is_digit c \<or> c = CHR ''_'')"

definition is_line_terminator :: "char \<Rightarrow> bool" where
  "is_line_terminator c = (c = CHR 0x0A \<or> c = CHR 0x0D)"

definition to_lower :: "char \<Rightarrow> char" where
  "to_lower c = (case map_of (zip upper_chars lower_chars) c of Some l \<Rightarrow> l | None \<Rightarrow> c)"

text \<open>\<^verbatim>\<open>shortName.match(/unzip/i)\<close>\<close>

definition match_unzip :: "string \<Rightarrow> bool" where
  "match_unzip s = str_includes (map to_lower s) ''unzip''"

text \<open>\<^verbatim>\<open>shortName.match(/^\d/)\<close>\<close>

definition match_starts_digit :: "string \<Rightarrow> bool" where
  "match_starts_digit s = (case s of [] \<Rightarrow> False | c # _ \<Rightarrow> is_digit c)"

text \<open>\<^verbatim>\<open>shortName.match(/^[A-Z_a-z]\w+$/)\<close>\<close>

definition match_identifier :: "string \<Rightarrow> bool" where
  "match_identifier s =
     (case s of
        [] \<Rightarrow> False
      | c # cs \<Rightarrow> (is_alpha c \<or> c = CHR ''_'') \<and> cs \<noteq> [] \<and> list_all is_word cs)"

text \<open>\<^verbatim>\<open>shortName.match(/^([A-Za-z]\w+)(?: - .+$| \(.+$)/)\<close>: the result is the first
  group. The group is followed by a space, which is no word character, so it is the
  longest run of word characters after the first letter.\<close>

definition match_tail :: "string \<Rightarrow> string \<Rightarrow> bool" where
  "match_tail rest sep =
     (startsWith rest sep \<and> drop (length sep) rest \<noteq> []
        \<and> list_all (\<lambda>c. \<not> is_line_terminator c) (drop (length sep) rest))"

definition match_copy :: "string \<Rightarrow> string option" where
  "match_copy s =
     (case s of
        [] \<Rightarrow> None
      | c # cs \<Rightarrow>
          if is_alpha c \<and> takeWhile is_word cs \<noteq> []
             \<and> (match_tail (dropWhile is_word cs) '' - '' \<or> match_tail (dropWhile is_word cs) '' ('')
          then Some (c # takeWhile is_word cs)
          else None)"

section \<open>The data of a run\<close>

text \<open>
  The collaborators of the checker are not part of the repository's sources: the file
  handler (\<^verbatim>\<open>fileHandlerAsync\<close>), the XML reader behind \<^verbatim>\<open>readXML\<close>, the icon decoder,
  Node's \<^verbatim>\<open>path\<close> module, \<^verbatim>\<open>requiredItems\<close> and the constant \<^verbatim>\<open>malwareFalse\<close>. What they
  return is an input of the model. The methods of the file handler are taken to return
  what its interface names (a boolean, the listing, a string or null, a tree or null or
  false) and not to throw; reading and decoding the icon may throw.

  A listed entry: its name, what \<^verbatim>\<open>fileInfo\<close> says of it, the value of
  \<^verbatim>\<open>path.extname\<close> on its name, and what \<^verbatim>\<open>readText\<close> returns for it (\<open>None\<close> when that
  is no string).
\<close>

record entry =
  e_name :: string
  e_isFolder :: bool
  e_size :: int
  e_extname :: string
  e_readText :: "string option"

text \<open>
  A child of the descriptor that \<^verbatim>\<open>#modDesc_localString\<close> reads: missing (undefined or
  null), a string, or an object with a text for each locale tag that it owns.
\<close>

datatype l10n_entry = L10nMissing | L10nScalar string | L10nLocales "string jsobj"

text \<open>
  What \<^verbatim>\<open>#modDesc_localString\<close> returns: a string, or a value that is no string (the
  number or the function that a member such as \<^verbatim>\<open>length\<close> or \<^verbatim>\<open>constructor\<close> is).
\<close>

datatype l10n_value = L10nText string | L10nOther

text \<open>
  The declared icon: \<^verbatim>\<open>typeof iconfilename === 'string'\<close>, or
  \<^verbatim>\<open>typeof iconfilename?.[0] === 'string'\<close>, or neither.
\<close>

datatype icon_decl = IconScalar string | IconFirst string | IconNone

text \<open>
  The tree that \<^verbatim>\<open>readXML('modDesc.xml', ...)\<close> returns, as the values of the paths
  that \<^verbatim>\<open>#doStep_parseModDesc\<close> reads in it (\<open>None\<close>: undefined or null).
\<close>

record moddesc_tree =
  x_DESCVERSION :: "int option"
  x_version :: "string option"
  x_author :: "string option"
  x_SUPPORTED :: "bool option"
  x_storeitem_length :: "nat option"
  x_CONFIGFILENAME :: "string option"
  x_dependency :: "string list option"
  x_has_productid :: bool
  x_iconfilename :: icon_decl
  x_children :: "l10n_entry jsobj"

text \<open>\<^verbatim>\<open>readXML\<close> returns false on a parse error, null when the file is not found.\<close>

datatype xml_result = XmlFalse | XmlNull | XmlTree moddesc_tree

text \<open>
  \<^verbatim>\<open>requiredItems.currentLocale\<close> and the set \<^verbatim>\<open>malwareFalse\<close>, and what the
  JavaScript runtime decides: the names that every string answers to beside its indices
  (\<^verbatim>\<open>length\<close> and the members of \<^verbatim>\<open>String.prototype\<close> and \<^verbatim>\<open>Object.prototype\<close>), and the
  names that every object of the descriptor inherits.
\<close>

record environ =
  currentLocale :: string
  malwareFalse :: "string list"
  stringMembers :: "string list"
  objectMembers :: "string list"

text \<open>
  The arguments of the constructor, \<^verbatim>\<open>path.parse(filePath).name\<close>, and the answers of
  the file handler and of the icon decoder for this artifact: what \<^verbatim>\<open>open\<close>, \<^verbatim>\<open>exists\<close>
  and \<^verbatim>\<open>list\<close> return, what \<^verbatim>\<open>readXML\<close> returns for \<^verbatim>\<open>modDesc.xml\<close>, and the image that
  \<^verbatim>\<open>parseDDS\<close> makes of the bytes of a file (\<open>None\<close> when \<^verbatim>\<open>readBin\<close> or \<^verbatim>\<open>parseDDS\<close>
  throws).
\<close>

record artifact =
  a_filePath :: string
  a_isFolder :: bool
  a_size :: int
  a_date :: int
  a_md5Pre :: "string option"
  a_parsedName :: string
  h_open :: bool
  h_exists :: "string \<Rightarrow> bool"
  h_list :: "entry list"
  h_readXML :: xml_result
  h_parseDDS :: "string \<Rightarrow> string option"

text \<open>
  The fields of the class. \<^verbatim>\<open>false\<close> and \<^verbatim>\<open>null\<close> defaults of textual fields are \<open>None\<close>.
  A quota is a JavaScript number: \<open>None\<close> is NaN. The fields that only the map and
  key-binding readers write (\<^verbatim>\<open>actions\<close>, \<^verbatim>\<open>binds\<close>, \<^verbatim>\<open>cropInfo\<close>, \<^verbatim>\<open>cropWeather\<close>,
  \<^verbatim>\<open>mapIsSouth\<close>), the log and the \<^verbatim>\<open>uuid\<close> are left out: those steps catch their own
  exceptions and touch no flag, list or quota.
\<close>

record modDesc_t =
  author :: string
  depend :: "string list"
  descVersion :: int
  iconFileName :: "string option"
  iconImageCache :: "string option"
  mapConfigFile :: "string option"
  multiPlayer :: bool
  scriptFiles :: nat
  storeItems :: nat
  version :: string

record fileDetail_t =
  copyName :: "string option"
  extraFiles :: "string list"
  fileDate :: "int option"
  fileSize :: int
  fullPath :: string
  i3dFiles :: "string list"
  imageDDS :: "string list"
  imageNonDDS :: "string list"
  isFolder :: bool
  isSaveGame :: bool
  pngTexture :: "string list"
  shortName :: string
  spaceFiles :: "string list"
  tooBigFiles :: "string list"

record checker =
  maxFilesType :: "int option jsobj"
  flag_broken :: "bool jsobj"
  flag_info :: "bool jsobj"
  flag_problem :: "bool jsobj"
  modDesc :: modDesc_t
  modDescParsed :: xml_result
  md5Sum :: "string option"
  fileDetail :: fileDetail_t
  l10n :: "(l10n_value \<times> l10n_value) option"
  locale_tag :: string

definition fileSizeMap :: "int jsobj" where
  "fileSizeMap =
     [(''cache'', 10485760), (''dds'', 12582912), (''gdm'', 18874368),
      (''shapes'', 268435456), (''xml'', 262144)]"

definition maxFilesType_init :: "int option jsobj" where
  "maxFilesType_init =
     [(''grle'', Some 10), (''pdf'', Some 1), (''png'', Some 128), (''txt'', Some 2)]"

definition flag_broken_init :: "bool jsobj" where
  "flag_broken_init =
     [(''FILE_ERROR_GARBAGE_FILE'', False),
      (''FILE_ERROR_LIKELY_COPY'', False),
      (''FILE_ERROR_LIKELY_ZIP_PACK'', False),
      (''FILE_ERROR_NAME_INVALID'', False),
      (''FILE_ERROR_NAME_STARTS_DIGIT'', False),
      (''FILE_ERROR_UNREADABLE_ZIP'', False),
      (''FILE_ERROR_UNSUPPORTED_ARCHIVE'', False),
      (''MOD_ERROR_NO_MOD_VERSION'', False),
      (''NOT_MOD_MODDESC_MISSING'', False),
      (''NOT_MOD_MODDESC_PARSE_ERROR'', False),
      (''NOT_MOD_MODDESC_VERSION_OLD_OR_MISSING'', False)]"

definition flag_info_init :: "bool jsobj" where
  "flag_info_init =
     [(''INFO_NO_MULTIPLAYER_UNZIPPED'', False),
      (''FILE_IS_A_SAVEGAME'', False),
      (''MALICIOUS_CODE'', False)]"

definition flag_problem_init :: "bool jsobj" where
  "flag_problem_init =
     [(''INFO_MIGHT_BE_PIRACY'', False),
      (''MOD_ERROR_MODDESC_DAMAGED_RECOVERABLE'', False),
      (''MOD_ERROR_NO_MOD_ICON'', False),
      (''PERF_DDS_TOO_BIG'', False),
      (''PERF_GDM_TOO_BIG'', False),
      (''PERF_GRLE_TOO_MANY'', False),
      (''PERF_HAS_EXTRA'', False),
      (''PERF_I3D_TOO_BIG'', False),
      (''PERF_L10N_NOT_SET'', False),
      (''PERF_PDF_TOO_MANY'', False),
      (''PERF_PNG_TOO_MANY'', False),
      (''PERF_SHAPES_TOO_BIG'', False),
      (''PERF_SPACE_IN_FILE'', False),
      (''PERF_TXT_TOO_MANY'', False),
      (''PERF_XML_TOO_BIG'', False),
      (''PREF_PNG_TEXTURE'', False)]"

definition modDesc_init :: modDesc_t where
  "modDesc_init =
     \<lparr>author = ''--'', depend = [], descVersion = 0, iconFileName = None,
      iconImageCache = None, mapConfigFile = None, multiPlayer = False,
      scriptFiles = 0, storeItems = 0, version = ''--''\<rparr>"

definition fileDetail_init :: fileDetail_t where
  "fileDetail_init =
     \<lparr>copyName = None, extraFiles = [], fileDate = None, fileSize = 0, fullPath = [],
      i3dFiles = [], imageDDS = [], imageNonDDS = [], isFolder = False,
      isSaveGame = False, pngTexture = [], shortName = [], spaceFiles = [],
      tooBigFiles = []\<rparr>"

section \<open>The steps of the checker\<close>

definition util_raiseFlag_problem :: "checker \<Rightarrow> string \<Rightarrow> checker" where
  "util_raiseFlag_problem st flag = st\<lparr>flag_problem := obj_set (flag_problem st) flag True\<rparr>"

definition util_raiseFlag_broken :: "checker \<Rightarrow> string \<Rightarrow> checker" where
  "util_raiseFlag_broken st flag = st\<lparr>flag_broken := obj_set (flag_broken st) flag True\<rparr>"

definition util_raiseFlag_info :: "checker \<Rightarrow> string \<Rightarrow> checker" where
  "util_raiseFlag_info st flag = st\<lparr>flag_info := obj_set (flag_info st) flag True\<rparr>"

text \<open>The constructor. \<^verbatim>\<open>md5Pre ?? null\<close> is \<^verbatim>\<open>md5Pre\<close> itself in the model.\<close>

definition constructor :: "environ \<Rightarrow> artifact \<Rightarrow> checker" where
  "constructor env a =
     \<lparr>maxFilesType = maxFilesType_init,
      flag_broken = flag_broken_init,
      flag_info = obj_set flag_info_init ''INFO_NO_MULTIPLAYER_UNZIPPED'' (a_isFolder a),
      flag_problem = flag_problem_init,
      modDesc = modDesc_init,
      modDescParsed = XmlFalse,
      md5Sum = a_md5Pre a,
      fileDetail = fileDetail_init
        \<lparr>fullPath := a_filePath a, isFolder := a_isFolder a, fileSize := a_size a,
         fileDate := Some (a_date a), shortName := a_parsedName a\<rparr>,
      l10n = None,
      locale_tag = currentLocale env\<rparr>"

text \<open>\<^verbatim>\<open>get #doStep_validFileName\<close>: the verdict and the state it leaves.\<close>

definition doStep_validFileName :: "checker \<Rightarrow> bool \<times> checker" where
  "doStep_validFileName st =
     (let fullModPath = fullPath (fileDetail st);
          shortNm = shortName (fileDetail st)
      in
      if \<not> isFolder (fileDetail st) \<and> \<not> endsWith fullModPath ''.zip'' then
        (if endsWith fullModPath ''.rar'' \<or> endsWith fullModPath ''.7z''
         then (False, util_raiseFlag_broken st ''FILE_ERROR_UNSUPPORTED_ARCHIVE'')
         else (False, util_raiseFlag_broken st ''FILE_ERROR_GARBAGE_FILE''))
      else
        (let st1 = (if match_unzip shortNm
                    then util_raiseFlag_broken st ''FILE_ERROR_LIKELY_ZIP_PACK'' else st)
         in
         if match_starts_digit shortNm then
           (False, util_raiseFlag_broken st1 ''FILE_ERROR_NAME_STARTS_DIGIT'')
         else if \<not> match_identifier shortNm then
           (case match_copy shortNm of
              Some base \<Rightarrow>
                (let st2 = util_raiseFlag_broken st1 ''FILE_ERROR_LIKELY_COPY''
                 in (False, st2\<lparr>fileDetail := (fileDetail st2)\<lparr>copyName := Some base\<rparr>\<rparr>))
            | None \<Rightarrow> (False, st1))
         else (True, st1)))"

text \<open>\<^verbatim>\<open>#util_size_check\<close>. A type that the size map lacks compares with undefined,
  which is false.\<close>

definition util_size_check :: "checker \<Rightarrow> int \<Rightarrow> string \<Rightarrow> string \<Rightarrow> string \<Rightarrow> checker" where
  "util_size_check st sz type fileName flagPart =
     (case obj_get fileSizeMap type of
        Some limit \<Rightarrow>
          if sz > limit then
            util_raiseFlag_problem
              (st\<lparr>fileDetail := (fileDetail st)
                    \<lparr>tooBigFiles := tooBigFiles (fileDetail st) @ [fileName]\<rparr>\<rparr>)
              (''PERF_'' @ flagPart @ ''_TOO_BIG'')
          else st
      | None \<Rightarrow> st)"

text \<open>\<^verbatim>\<open>#util_tick_count\<close>: \<^verbatim>\<open>this.#maxFilesType[type]--\<close>. Decrementing a missing key
  or NaN stores NaN.\<close>

definition util_tick_count :: "checker \<Rightarrow> string \<Rightarrow> checker" where
  "util_tick_count st type =
     st\<lparr>maxFilesType :=
          obj_set (maxFilesType st) type
            (case obj_get (maxFilesType st) type of
               Some (Some n) \<Rightarrow> Some (n - 1)
             | _ \<Rightarrow> None)\<rparr>"

definition knownGood :: "string list" where
  "knownGood =
     [[], ''png'', ''dds'', ''i3d'', ''shapes'', ''lua'', ''gdm'', ''cache'', ''xml'',
      ''grle'', ''pdf'', ''txt'', ''gls'', ''anim'', ''ogg'']"

definition util_countUnknown :: "checker \<Rightarrow> string \<Rightarrow> string \<Rightarrow> bool \<times> checker" where
  "util_countUnknown st shortSuffix fileName =
     (if shortSuffix \<notin> set knownGood then
        (let st1 = (if shortSuffix = ''l64'' \<or> shortSuffix = ''dat''
                    then util_raiseFlag_problem st ''INFO_MIGHT_BE_PIRACY'' else st);
             st2 = util_raiseFlag_problem st1 ''PERF_HAS_EXTRA''
         in (True, st2\<lparr>fileDetail := (fileDetail st2)
                         \<lparr>extraFiles := extraFiles (fileDetail st2) @ [fileName]\<rparr>\<rparr>))
      else (False, st))"

text \<open>\<^verbatim>\<open>#util_checkLUA\<close>, on what \<^verbatim>\<open>readText\<close> returned for the file.\<close>

definition util_checkLUA :: "environ \<Rightarrow> checker \<Rightarrow> string option \<Rightarrow> checker" where
  "util_checkLUA env st luaContents =
     (if shortName (fileDetail st) \<in> set (malwareFalse env) then st
      else
        (case luaContents of
           None \<Rightarrow> st
         | Some txt \<Rightarrow>
             if str_includes txt ''.deleteFolder'' then util_raiseFlag_info st ''MALICIOUS_CODE''
             else if str_includes txt ''.deleteFile'' then util_raiseFlag_info st ''MALICIOUS_CODE''
             else st))"

text \<open>\<^verbatim>\<open>toUpperCase\<close> on the three tags that reach it.\<close>

definition to_upper :: "char \<Rightarrow> char" where
  "to_upper c = (case map_of (zip lower_chars upper_chars) c of Some u \<Rightarrow> u | None \<Rightarrow> c)"

text \<open>\<^verbatim>\<open>#util_countFile\<close>. The \<^verbatim>\<open>switch\<close> compares the suffix without its first
  character against the case labels in order; the labels of the last group are written
  with a dot in the source.\<close>

definition util_countFile ::
  "environ \<Rightarrow> checker \<Rightarrow> string \<Rightarrow> string \<Rightarrow> int \<Rightarrow> string option \<Rightarrow> checker" where
  "util_countFile env st suffix fileName sz luaContents =
     (let shortSuffix = drop 1 suffix in
      case util_countUnknown st shortSuffix fileName of
        (True, st1) \<Rightarrow> st1
      | (False, st1) \<Rightarrow>
          if shortSuffix = ''png'' then
            (let st2 = util_tick_count st1 ''png'' in
             if \<not> endsWith fileName ''_weight.png'' then
               st2\<lparr>fileDetail := (fileDetail st2)
                     \<lparr>imageNonDDS := imageNonDDS (fileDetail st2) @ [fileName],
                      pngTexture := pngTexture (fileDetail st2) @ [fileName]\<rparr>\<rparr>
             else st2)
          else if shortSuffix = ''dds'' then
            util_size_check
              (st1\<lparr>fileDetail := (fileDetail st1)
                     \<lparr>imageDDS := imageDDS (fileDetail st1) @ [fileName]\<rparr>\<rparr>)
              sz ''dds'' fileName ''DDS''
          else if shortSuffix = ''i3d'' then
            st1\<lparr>fileDetail := (fileDetail st1)
                  \<lparr>i3dFiles := i3dFiles (fileDetail st1) @ [fileName]\<rparr>\<rparr>
          else if shortSuffix = ''lua'' then
            util_checkLUA env
              (st1\<lparr>modDesc := (modDesc st1)\<lparr>scriptFiles := scriptFiles (modDesc st1) + 1\<rparr>\<rparr>)
              luaContents
          else if shortSuffix = ''cache'' then
            util_size_check st1 sz shortSuffix fileName ''I3D''
          else if shortSuffix = ''gdm'' \<or> shortSuffix = ''xml'' \<or> shortSuffix = ''shapes'' then
            util_size_check st1 sz shortSuffix fileName (map to_upper shortSuffix)
          else if shortSuffix = ''.grle'' \<or> shortSuffix = ''.pdf'' \<or> shortSuffix = ''.txt'' then
            util_tick_count st1 shortSuffix
          else st1)"

text \<open>The body of the loop of \<^verbatim>\<open>#doStep_fileCounts\<close> for one listed entry.\<close>

definition fileCounts_entry :: "environ \<Rightarrow> checker \<Rightarrow> entry \<Rightarrow> checker" where
  "fileCounts_entry env st e =
     (let fileName = e_name e;
          st1 = (if str_includes fileName '' '' then
                   util_raiseFlag_problem
                     (st\<lparr>fileDetail := (fileDetail st)
                           \<lparr>spaceFiles := spaceFiles (fileDetail st) @ [fileName]\<rparr>\<rparr>)
                     ''PERF_SPACE_IN_FILE''
                 else st)
      in
      if e_isFolder e then st1
      else util_countFile env st1 (e_extname e) fileName (e_size e) (e_readText e))"

text \<open>\<^verbatim>\<open>this.#maxFilesType.t < 1\<close> (false for NaN and for a missing key).\<close>

definition quota_below_1 :: "checker \<Rightarrow> string \<Rightarrow> bool" where
  "quota_below_1 st t = (case obj_get (maxFilesType st) t of Some (Some n) \<Rightarrow> n < 1 | _ \<Rightarrow> False)"

text \<open>The four assignments that end \<^verbatim>\<open>#doStep_fileCounts\<close>.\<close>

definition fileCounts_tooMany :: "checker \<Rightarrow> checker" where
  "fileCounts_tooMany st =
     st\<lparr>flag_problem :=
          obj_set
            (obj_set
               (obj_set
                  (obj_set (flag_problem st) ''PERF_GRLE_TOO_MANY'' (quota_below_1 st ''grle''))
                  ''PERF_PNG_TOO_MANY'' (quota_below_1 st ''png''))
               ''PERF_PDF_TOO_MANY'' (quota_below_1 st ''pdf''))
            ''PERF_TXT_TOO_MANY'' (quota_below_1 st ''txt'')\<rparr>"

definition doStep_fileCounts :: "environ \<Rightarrow> checker \<Rightarrow> entry list \<Rightarrow> checker" where
  "doStep_fileCounts env st entries = fileCounts_tooMany (foldl (fileCounts_entry env) st entries)"

text \<open>\<^verbatim>\<open>#modDesc_default(key, fallback)\<close>: \<^verbatim>\<open>key ?? fallback\<close>.\<close>

definition modDesc_default :: "'a option \<Rightarrow> 'a \<Rightarrow> 'a" where
  "modDesc_default key fallback = (case key of Some v \<Rightarrow> v | None \<Rightarrow> fallback)"

text \<open>The icon name that \<^verbatim>\<open>#doStep_parseModDesc\<close> looks up: the declared name, the empty
  string when none is declared, with \<^verbatim>\<open>slice(0, -4)\<close> and \<^verbatim>\<open>.dds\<close> appended when it does
  not end in \<^verbatim>\<open>.dds\<close>.\<close>

definition declared_icon :: "icon_decl \<Rightarrow> string" where
  "declared_icon d = (case d of IconScalar s \<Rightarrow> s | IconFirst s \<Rightarrow> s | IconNone \<Rightarrow> [])"

definition icon_dds_name :: "string \<Rightarrow> string" where
  "icon_dds_name n = (if \<not> endsWith n ''.dds'' then take (length n - 4) n @ ''.dds'' else n)"

text \<open>\<^verbatim>\<open>#doStep_parseModDesc\<close> after \<^verbatim>\<open>readXML\<close> returned a tree. The key-binding reader
  that ends it (\<^verbatim>\<open>#doStep_parseActions\<close>) writes \<^verbatim>\<open>actions\<close> and \<^verbatim>\<open>binds\<close> only.\<close>

definition parseModDesc_tree :: "checker \<Rightarrow> moddesc_tree \<Rightarrow> checker" where
  "parseModDesc_tree st t =
     (let st1 = st\<lparr>modDesc := (modDesc st)\<lparr>descVersion := modDesc_default (x_DESCVERSION t) 0\<rparr>\<rparr>;
          st2 = st1\<lparr>flag_broken :=
                      obj_set (flag_broken st1) ''NOT_MOD_MODDESC_VERSION_OLD_OR_MISSING''
                        (descVersion (modDesc st1) = 0)\<rparr>;
          st3 = st2\<lparr>modDesc := (modDesc st2)\<lparr>version := modDesc_default (x_version t) ''0.0.0.0''\<rparr>\<rparr>;
          st4 = st3\<lparr>flag_broken :=
                      obj_set (flag_broken st3) ''MOD_ERROR_NO_MOD_VERSION''
                        (version (modDesc st3) = ''0.0.0.0'')\<rparr>;
          st5 = st4\<lparr>modDesc := (modDesc st4)
                      \<lparr>author := modDesc_default (x_author t) ''--'',
                       multiPlayer := modDesc_default (x_SUPPORTED t) False,
                       storeItems := modDesc_default (x_storeitem_length t) 0,
                       mapConfigFile := x_CONFIGFILENAME t,
                       depend := modDesc_default (x_dependency t) []\<rparr>\<rparr>;
          st6 = st5\<lparr>flag_problem :=
                      obj_set (flag_problem st5) ''INFO_MIGHT_BE_PIRACY'' (x_has_productid t)\<rparr>;
          iconName = icon_dds_name (declared_icon (x_iconfilename t))
      in
      if iconName \<in> set (imageDDS (fileDetail st6))
      then st6\<lparr>modDesc := (modDesc st6)\<lparr>iconFileName := Some iconName\<rparr>\<rparr>
      else util_raiseFlag_problem st6 ''MOD_ERROR_NO_MOD_ICON'')"

definition doStep_parseModDesc :: "artifact \<Rightarrow> checker \<Rightarrow> checker" where
  "doStep_parseModDesc a st =
     (let st1 = st\<lparr>modDescParsed := h_readXML a\<rparr> in
      case modDescParsed st1 of
        XmlFalse \<Rightarrow> util_raiseFlag_broken st1 ''NOT_MOD_MODDESC_PARSE_ERROR''
      | XmlNull \<Rightarrow> util_raiseFlag_broken st1 ''NOT_MOD_MODDESC_MISSING''
      | XmlTree t \<Rightarrow> parseModDesc_tree st1 t)"

text \<open>The inner \<^verbatim>\<open>try\<close> of \<^verbatim>\<open>getInfo\<close> that decodes the icon: every exception in it
  raises the flag. \<open>h_parseDDS\<close> is \<open>None\<close> when reading or decoding throws.\<close>

definition getInfo_icon :: "artifact \<Rightarrow> checker \<Rightarrow> checker" where
  "getInfo_icon a st =
     (case iconFileName (modDesc st) of
        None \<Rightarrow> util_raiseFlag_problem st ''MOD_ERROR_NO_MOD_ICON''
      | Some nm \<Rightarrow>
          if flag_set (flag_problem st) ''MOD_ERROR_NO_MOD_ICON'' \<or> \<not> h_exists a nm
          then util_raiseFlag_problem st ''MOD_ERROR_NO_MOD_ICON''
          else (case h_parseDDS a nm of
                  None \<Rightarrow> util_raiseFlag_problem st ''MOD_ERROR_NO_MOD_ICON''
                | Some img \<Rightarrow> st\<lparr>modDesc := (modDesc st)\<lparr>iconImageCache := Some img\<rparr>\<rparr>))"

text \<open>The index that a property name is: a decimal numeral without a leading zero.\<close>

definition digit_value :: "char \<Rightarrow> nat" where
  "digit_value c =
     (case map_of (zip ''0123456789'' [0, 1, 2, 3, 4, 5, 6, 7, 8, 9]) c of
        Some d \<Rightarrow> d
      | None \<Rightarrow> 0)"

definition array_index :: "string \<Rightarrow> nat option" where
  "array_index k =
     (case k of
        [] \<Rightarrow> None
      | c # cs \<Rightarrow>
          if list_all is_digit k \<and> (cs = [] \<or> c \<noteq> CHR ''0'')
          then Some (foldl (\<lambda>n d. 10 * n + digit_value d) 0 k)
          else None)"

text \<open>\<^verbatim>\<open>s[k]\<close> of a string: the character at an index within the string, the value of a
  member, and undefined (\<open>None\<close>) for any other name.\<close>

definition string_get :: "environ \<Rightarrow> string \<Rightarrow> string \<Rightarrow> l10n_value option" where
  "string_get env s k =
     (case array_index k of
        Some i \<Rightarrow>
          if i < length s then Some (L10nText [s ! i])
          else if k \<in> set (stringMembers env) then Some L10nOther else None
      | None \<Rightarrow> if k \<in> set (stringMembers env) then Some L10nOther else None)"

text \<open>\<^verbatim>\<open>m[k]\<close> of an object of the descriptor: its own text, else what it inherits.\<close>

definition locales_get :: "environ \<Rightarrow> string jsobj \<Rightarrow> string \<Rightarrow> l10n_value option" where
  "locales_get env m k =
     (case obj_get m k of
        Some v \<Rightarrow> Some (L10nText v)
      | None \<Rightarrow> if k \<in> set (objectMembers env) then Some L10nOther else None)"

definition tree_get :: "environ \<Rightarrow> l10n_entry \<Rightarrow> string \<Rightarrow> l10n_value option" where
  "tree_get env searchTree k =
     (case searchTree of
        L10nLocales m \<Rightarrow> locales_get env m k
      | L10nScalar s \<Rightarrow> string_get env s k
      | L10nMissing \<Rightarrow> None)"

text \<open>\<^verbatim>\<open>#modDesc_localString(key, fallback)\<close>. A missing child is replaced by the
  fallback string; the search tree is then indexed by the locale tag, by \<^verbatim>\<open>en\<close> and by
  \<^verbatim>\<open>de\<close>, and the first of these that is neither undefined nor null is returned.\<close>

definition modDesc_localString :: "environ \<Rightarrow> checker \<Rightarrow> string \<Rightarrow> string \<Rightarrow> l10n_value" where
  "modDesc_localString env st key fallback =
     (let found = (case modDescParsed st of
                     XmlTree t \<Rightarrow>
                       (case obj_get (x_children t) (map to_lower key) of
                          Some e \<Rightarrow> e
                        | None \<Rightarrow> L10nMissing)
                   | _ \<Rightarrow> L10nMissing);
          searchTree = (case found of L10nMissing \<Rightarrow> L10nScalar fallback | _ \<Rightarrow> found)
      in
      case tree_get env searchTree (locale_tag st) of
        Some v \<Rightarrow> v
      | None \<Rightarrow>
          (case tree_get env searchTree ''en'' of
             Some v \<Rightarrow> v
           | None \<Rightarrow>
               (case tree_get env searchTree ''de'' of
                  Some v \<Rightarrow> v
                | None \<Rightarrow> L10nText fallback)))"

definition doStep_l10n :: "environ \<Rightarrow> checker \<Rightarrow> checker" where
  "doStep_l10n env st =
     (let title = modDesc_localString env st ''title'' ''--'';
          desc = modDesc_localString env st ''description'' []
      in st\<lparr>flag_info := obj_set (flag_info st) ''PERF_L10N_NOT_SET''
                            (title = L10nText ''--'' \<or> desc = L10nText []),
            l10n := Some (title, desc)\<rparr>)"

section \<open>The report\<close>

definition doStep_canUse :: "checker \<Rightarrow> bool" where
  "doStep_canUse st = (if isSaveGame (fileDetail st) then True else some_true (flag_broken st))"

definition doStep_badges :: "checker \<Rightarrow> string list" where
  "doStep_badges st =
     true_keys
       [(''broken'', if isSaveGame (fileDetail st) then False else some_true (flag_broken st)),
        (''folder'', isFolder (fileDetail st)),
        (''malware'', flag_set (flag_info st) ''MALICIOUS_CODE''),
        (''noMP'', \<not> multiPlayer (modDesc st) \<and> isFolder (fileDetail st)),
        (''notmod'', flag_set (flag_broken st) ''NOT_MOD_MODDESC_MISSING''),
        (''pconly'', scriptFiles (modDesc st) > 0),
        (''problem'', if isSaveGame (fileDetail st) then False else some_true (flag_problem st)),
        (''savegame'', isSaveGame (fileDetail st))]"

text \<open>The \<^verbatim>\<open>record\<close> of \<^verbatim>\<open>get storable\<close>, without the constant \<^verbatim>\<open>currentCollection\<close> and
  the \<^verbatim>\<open>uuid\<close>.\<close>

record report =
  badgeArray :: "string list"
  canNotUse :: bool
  r_fileDetail :: fileDetail_t
  issues :: "string list"
  r_l10n :: "(l10n_value \<times> l10n_value) option"
  r_md5Sum :: "string option"
  r_modDesc :: modDesc_t

definition storable :: "checker \<Rightarrow> report" where
  "storable st =
     \<lparr>badgeArray = doStep_badges st,
      canNotUse = doStep_canUse st,
      r_fileDetail = fileDetail st,
      issues = true_keys
                 (obj_spread (obj_spread (obj_spread [] (flag_broken st)) (flag_problem st))
                    (flag_info st)),
      r_l10n = l10n st,
      r_md5Sum = md5Sum st,
      r_modDesc = modDesc st\<rparr>"

section \<open>The pipeline\<close>

text \<open>
  The \<^verbatim>\<open>try\<close> block of \<^verbatim>\<open>getInfo\<close>: the state when it ends or throws (the \<^verbatim>\<open>catch\<close>
  only logs). The map reader between the descriptor and the icon steps writes the crop
  fields only and catches its own exceptions.
\<close>

definition getInfo_try :: "environ \<Rightarrow> artifact \<Rightarrow> bool \<Rightarrow> checker \<Rightarrow> checker" where
  "getInfo_try env a isValidMod st0 =
     (let st = (if \<not> isValidMod then util_raiseFlag_broken st0 ''FILE_ERROR_NAME_INVALID''
                else st0)
      in
      if \<not> h_open a then
        (if \<not> isValidMod then st else util_raiseFlag_broken st ''FILE_ERROR_UNREADABLE_ZIP'')
      else if h_exists a ''careerSavegame.xml'' then
        util_raiseFlag_info
          (st\<lparr>fileDetail := (fileDetail st)\<lparr>isSaveGame := True\<rparr>,
              modDesc := (modDesc st)\<lparr>version := ''--''\<rparr>\<rparr>)
          ''FILE_IS_A_SAVEGAME''
      else if \<not> isValidMod then st
      else if \<not> h_exists a ''modDesc.xml'' then
        (util_raiseFlag_broken st ''NOT_MOD_MODDESC_MISSING'')\<lparr>md5Sum := None\<rparr>
      else
        getInfo_icon a (doStep_parseModDesc a (doStep_fileCounts env st (h_list a))))"

text \<open>The state of the checker when \<^verbatim>\<open>getInfo\<close> reads \<^verbatim>\<open>this.storable\<close>.\<close>

definition getInfo_state :: "environ \<Rightarrow> artifact \<Rightarrow> checker" where
  "getInfo_state env a =
     (case doStep_validFileName (constructor env a) of
        (isValidMod, st1) \<Rightarrow>
          (doStep_l10n env (getInfo_try env a isValidMod st1))\<lparr>modDescParsed := XmlNull\<rparr>)"

definition getInfo :: "environ \<Rightarrow> artifact \<Rightarrow> report" where
  "getInfo env a = storable (getInfo_state env a)"

section \<open>The states of a run\<close>

text \<open>
  The successive states of the checker during \<^verbatim>\<open>getInfo\<close>, one after each step: the
  constructor, the name validator, the \<^verbatim>\<open>FILE_ERROR_NAME_INVALID\<close> check, every listed
  entry of the walk, the four quota assignments, the descriptor, the icon, the localization
  and the final reset of \<^verbatim>\<open>modDescParsed\<close>.
\<close>

fun fileCounts_walk :: "environ \<Rightarrow> checker \<Rightarrow> entry list \<Rightarrow> checker list" where
  "fileCounts_walk env st [] = []"
| "fileCounts_walk env st (e # es) =
     fileCounts_entry env st e # fileCounts_walk env (fileCounts_entry env st e) es"

definition getInfo_try_trace :: "environ \<Rightarrow> artifact \<Rightarrow> bool \<Rightarrow> checker \<Rightarrow> checker list" where
  "getInfo_try_trace env a isValidMod st0 =
     (let st = (if \<not> isValidMod then util_raiseFlag_broken st0 ''FILE_ERROR_NAME_INVALID''
                else st0)
      in
      st #
      (if \<not> h_open a then
         (if \<not> isValidMod then [] else [util_raiseFlag_broken st ''FILE_ERROR_UNREADABLE_ZIP''])
       else if h_exists a ''careerSavegame.xml'' then
         [util_raiseFlag_info
            (st\<lparr>fileDetail := (fileDetail st)\<lparr>isSaveGame := True\<rparr>,
                modDesc := (modDesc st)\<lparr>version := ''--''\<rparr>\<rparr>)
            ''FILE_IS_A_SAVEGAME'']
       else if \<not> isValidMod then []
       else if \<not> h_exists a ''modDesc.xml'' then
         [(util_raiseFlag_broken st ''NOT_MOD_MODDESC_MISSING'')\<lparr>md5Sum := None\<rparr>]
       else
         (let counted = doStep_fileCounts env st (h_list a);
              parsed = doStep_parseModDesc a counted
          in fileCounts_walk env st (h_list a) @ [counted, parsed, getInfo_icon a parsed])))"

definition getInfo_trace :: "environ \<Rightarrow> artifact \<Rightarrow> checker list" where
  "getInfo_trace env a =
     (case doStep_validFileName (constructor env a) of
        (isValidMod, st1) \<Rightarrow>
          (let body = getInfo_try_trace env a isValidMod st1;
               localized = doStep_l10n env (last body)
           in [constructor env a, st1] @ body @ [localized, localized\<lparr>modDescParsed := XmlNull\<rparr>]))"

section \<open>What the claims speak of\<close>

text \<open>The artifact is detected as a save-game: the archive opens and holds the marker.\<close>

definition savegame_detected :: "artifact \<Rightarrow> bool" where
  "savegame_detected a = (h_open a \<and> h_exists a ''careerSavegame.xml'')"






text \<open>Along the successive values of a flag object, the flag \<open>k\<close> is never set back to
  false once it is true.\<close>

fun never_cleared :: "string \<Rightarrow> bool jsobj list \<Rightarrow> bool" where
  "never_cleared k (m # m' # ms) =
     ((if flag_set m k then flag_set m' k else True) \<and> never_cleared k (m' # ms))"
| "never_cleared k ms = True"

text \<open>The flag names that some step of the run assigns, by category.\<close>

definition problem_written :: "string list" where
  "problem_written =
     [''INFO_MIGHT_BE_PIRACY'', ''MOD_ERROR_NO_MOD_ICON'', ''PERF_DDS_TOO_BIG'',
      ''PERF_GDM_TOO_BIG'', ''PERF_GRLE_TOO_MANY'', ''PERF_HAS_EXTRA'', ''PERF_I3D_TOO_BIG'',
      ''PERF_PDF_TOO_MANY'', ''PERF_PNG_TOO_MANY'', ''PERF_SHAPES_TOO_BIG'',
      ''PERF_SPACE_IN_FILE'', ''PERF_TXT_TOO_MANY'', ''PERF_XML_TOO_BIG'']"

definition info_written :: "string list" where
  "info_written = [''FILE_IS_A_SAVEGAME'', ''MALICIOUS_CODE'', ''PERF_L10N_NOT_SET'']"

definition broken_written :: "string list" where
  "broken_written = obj_keys flag_broken_init"

text \<open>No key occurs twice in a flag object.\<close>

definition flags_distinct :: "checker \<Rightarrow> bool" where
  "flags_distinct st =
     (distinct (obj_keys (flag_broken st)) \<and> distinct (obj_keys (flag_problem st))
        \<and> distinct (obj_keys (flag_info st)))"

text \<open>From \<open>st\<close> to \<open>st'\<close> only the assigned names changed, and no key was doubled.\<close>

definition frame :: "checker \<Rightarrow> checker \<Rightarrow> bool" where
  "frame st st' =
     ((\<forall>k. k \<notin> set broken_written \<longrightarrow> obj_get (flag_broken st') k = obj_get (flag_broken st) k)
      \<and> (\<forall>k. k \<notin> set problem_written \<longrightarrow> obj_get (flag_problem st') k = obj_get (flag_problem st) k)
      \<and> (\<forall>k. k \<notin> set info_written \<longrightarrow> obj_get (flag_info st') k = obj_get (flag_info st) k)
      \<and> (flags_distinct st \<longrightarrow> flags_distinct st'))"

section \<open>Sample artifacts\<close>

definition sample_env :: environ where
  "sample_env =
     \<lparr>currentLocale = ''en'', malwareFalse = [],
      stringMembers =
        [''length'', ''constructor'', ''toString'', ''valueOf'', ''at'', ''charAt'',
         ''charCodeAt'', ''codePointAt'', ''concat'', ''endsWith'', ''includes'', ''indexOf'',
         ''lastIndexOf'', ''localeCompare'', ''match'', ''matchAll'', ''normalize'', ''padEnd'',
         ''padStart'', ''repeat'', ''replace'', ''replaceAll'', ''search'', ''slice'', ''split'',
         ''startsWith'', ''substring'', ''toLocaleLowerCase'', ''toLocaleUpperCase'',
         ''toLowerCase'', ''toUpperCase'', ''trim'', ''trimEnd'', ''trimStart'', ''substr'',
         ''anchor'', ''big'', ''blink'', ''bold'', ''fixed'', ''fontcolor'', ''fontsize'',
         ''italics'', ''link'', ''small'', ''strike'', ''sub'', ''sup'', ''trimLeft'',
         ''trimRight'', ''hasOwnProperty'', ''isPrototypeOf'', ''propertyIsEnumerable'',
         ''toLocaleString'', ''__proto__'', ''__defineGetter__'', ''__defineSetter__'',
         ''__lookupGetter__'', ''__lookupSetter__''],
      objectMembers =
        [''constructor'', ''toString'', ''valueOf'', ''hasOwnProperty'', ''isPrototypeOf'',
         ''propertyIsEnumerable'', ''toLocaleString'', ''__proto__'', ''__defineGetter__'',
         ''__defineSetter__'', ''__lookupGetter__'', ''__lookupSetter__'']\<rparr>"

text \<open>A descriptor with a version, a schema version and an icon declared as
  \<^verbatim>\<open>icon.png\<close>, and neither title nor description.\<close>

definition sample_tree :: moddesc_tree where
  "sample_tree =
     \<lparr>x_DESCVERSION = Some 72, x_version = Some ''1.0.0.0'', x_author = Some ''jt'',
      x_SUPPORTED = Some True, x_storeitem_length = None, x_CONFIGFILENAME = None,
      x_dependency = None, x_has_productid = False, x_iconfilename = IconScalar ''icon.png'',
      x_children = []\<rparr>"

definition plain_file :: "string \<Rightarrow> string \<Rightarrow> int \<Rightarrow> entry" where
  "plain_file nm ext sz =
     \<lparr>e_name = nm, e_isFolder = False, e_size = sz, e_extname = ext, e_readText = None\<rparr>"

definition directory :: "string \<Rightarrow> entry" where
  "directory nm =
     \<lparr>e_name = nm, e_isFolder = True, e_size = 0, e_extname = [], e_readText = None\<rparr>"

text \<open>A zip file that opens: it holds the entries it lists, \<^verbatim>\<open>readXML\<close> returns \<open>xml\<close>
  for its descriptor, and every file it holds decodes as an icon.\<close>

definition zip_artifact :: "string \<Rightarrow> string \<Rightarrow> entry list \<Rightarrow> xml_result \<Rightarrow> artifact" where
  "zip_artifact path nm entries xml =
     \<lparr>a_filePath = path, a_isFolder = False, a_size = 4096, a_date = 0,
      a_md5Pre = Some ''d41d8cd9'', a_parsedName = nm, h_open = True,
      h_exists = (\<lambda>n. n \<in> set (map e_name entries)), h_list = entries,
      h_readXML = xml,
      h_parseDDS = (\<lambda>n. if n \<in> set (map e_name entries) then Some ''image'' else None)\<rparr>"

definition art_savegame :: artifact where
  "art_savegame =
     zip_artifact ''savegame1.zip'' ''savegame1''
       [plain_file ''careerSavegame.xml'' ''.xml'' 4096] XmlNull"

definition art_digit :: artifact where
  "art_digit = zip_artifact ''1mod.zip'' ''1mod'' [] XmlNull"

definition art_nodesc :: artifact where
  "art_nodesc = zip_artifact ''FS22_Mod.zip'' ''FS22_Mod'' [] XmlNull"

definition mod_artifact :: "entry list \<Rightarrow> artifact" where
  "mod_artifact extra =
     zip_artifact ''FS22_Mod.zip'' ''FS22_Mod''
       (extra @ [plain_file ''modDesc.xml'' ''.xml'' 2048, plain_file ''icon.dds'' ''.dds'' 65536])
       (XmlTree sample_tree)"

definition art_plain :: artifact where
  "art_plain = mod_artifact []"

definition art_dat :: artifact where
  "art_dat = mod_artifact [plain_file ''key.dat'' ''.dat'' 16]"

definition art_txt :: artifact where
  "art_txt =
     mod_artifact
       [plain_file ''a.txt'' ''.txt'' 10, plain_file ''b.txt'' ''.txt'' 10,
        plain_file ''c.txt'' ''.txt'' 10]"



section \<open>Facts about JavaScript objects\<close>

lemma map_of_obj_set: "map_of (obj_set m k v) k' = (if k' = k then Some v else map_of m k')"
  by (induction m) auto

lemma obj_get_set: "obj_get (obj_set m k v) k' = (if k' = k then Some v else obj_get m k')"
  by (simp add: obj_get_def map_of_obj_set)

lemma obj_keys_set:
  "obj_keys (obj_set m k v) = (if k \<in> set (obj_keys m) then obj_keys m else obj_keys m @ [k])"
  by (induction m) (force simp: obj_keys_def)+

lemma distinct_obj_set: "distinct (obj_keys m) \<Longrightarrow> distinct (obj_keys (obj_set m k v))"
  by (simp add: obj_keys_set)

lemma obj_get_spread:
  "obj_get (obj_spread a b) k = (case obj_get (rev b) k of Some v \<Rightarrow> Some v | None \<Rightarrow> obj_get a k)"
proof (induction b arbitrary: a)
  case Nil
  then show ?case by (simp add: obj_spread_def obj_get_def)
next
  case (Cons kv b)
  have "obj_spread a (kv # b) = obj_spread (obj_set a (fst kv) (snd kv)) b"
    by (simp add: obj_spread_def)
  then show ?case
    using Cons.IH [of "obj_set a (fst kv) (snd kv)"]
    by (cases kv) (auto simp: map_of_obj_set obj_get_def split: option.splits)
qed

lemma distinct_spread: "distinct (obj_keys a) \<Longrightarrow> distinct (obj_keys (obj_spread a b))"
proof (induction b arbitrary: a)
  case Nil
  then show ?case by (simp add: obj_spread_def)
next
  case (Cons kv b)
  have "obj_spread a (kv # b) = obj_spread (obj_set a (fst kv) (snd kv)) b"
    by (simp add: obj_spread_def)
  then show ?case using Cons by (simp add: distinct_obj_set)
qed

lemma true_keys_mem:
  "distinct (obj_keys m) \<Longrightarrow> k \<in> set (true_keys m) \<longleftrightarrow> obj_get m k = Some True"
  by (auto simp: true_keys_def obj_get_def obj_keys_def image_iff)

lemma obj_get_rev: "distinct (obj_keys m) \<Longrightarrow> obj_get (rev m) k = obj_get m k"
  unfolding obj_get_def obj_keys_def
  by (metis distinct_rev map_of_inject_set rev_map set_rev)

lemma some_true_iff: "some_true m \<longleftrightarrow> (\<exists>k. (k, True) \<in> set m)"
  by (force simp: some_true_def list_ex_iff)

lemma obj_get_None: "obj_get m k = None \<longleftrightarrow> k \<notin> set (obj_keys m)"
  by (simp add: obj_get_def obj_keys_def map_of_eq_None_iff)

section \<open>What a step may assign\<close>

lemma frame_refl: "frame st st"
  by (simp add: frame_def)

lemma frame_trans: "frame st st' \<Longrightarrow> frame st' st'' \<Longrightarrow> frame st st''"
  by (simp add: frame_def)

lemma frame_raise_broken:
  "k \<in> set broken_written \<Longrightarrow> frame st (util_raiseFlag_broken st k)"
  by (auto simp: frame_def util_raiseFlag_broken_def obj_get_set flags_distinct_def distinct_obj_set)

lemma frame_raise_problem:
  "k \<in> set problem_written \<Longrightarrow> frame st (util_raiseFlag_problem st k)"
  by (auto simp: frame_def util_raiseFlag_problem_def obj_get_set flags_distinct_def distinct_obj_set)

lemma frame_raise_info:
  "k \<in> set info_written \<Longrightarrow> frame st (util_raiseFlag_info st k)"
  by (auto simp: frame_def util_raiseFlag_info_def obj_get_set flags_distinct_def distinct_obj_set)

lemma frame_same_flags:
  "flag_broken st' = flag_broken st \<Longrightarrow> flag_problem st' = flag_problem st
     \<Longrightarrow> flag_info st' = flag_info st \<Longrightarrow> frame st st'"
  by (simp add: frame_def flags_distinct_def)

lemma frame_set_problem:
  "k \<in> set problem_written \<Longrightarrow> frame st (st\<lparr>flag_problem := obj_set (flag_problem st) k v\<rparr>)"
  by (auto simp: frame_def obj_get_set flags_distinct_def distinct_obj_set)

lemma frame_set_broken:
  "k \<in> set broken_written \<Longrightarrow> frame st (st\<lparr>flag_broken := obj_set (flag_broken st) k v\<rparr>)"
  by (auto simp: frame_def obj_get_set flags_distinct_def distinct_obj_set)

lemma frame_set_info:
  "k \<in> set info_written \<Longrightarrow> frame st (st\<lparr>flag_info := obj_set (flag_info st) k v\<rparr>)"
  by (auto simp: frame_def obj_get_set flags_distinct_def distinct_obj_set)

lemma broken_written_mem:
  "''FILE_ERROR_GARBAGE_FILE'' \<in> set broken_written"
  "''FILE_ERROR_LIKELY_COPY'' \<in> set broken_written"
  "''FILE_ERROR_LIKELY_ZIP_PACK'' \<in> set broken_written"
  "''FILE_ERROR_NAME_INVALID'' \<in> set broken_written"
  "''FILE_ERROR_NAME_STARTS_DIGIT'' \<in> set broken_written"
  "''FILE_ERROR_UNREADABLE_ZIP'' \<in> set broken_written"
  "''FILE_ERROR_UNSUPPORTED_ARCHIVE'' \<in> set broken_written"
  "''MOD_ERROR_NO_MOD_VERSION'' \<in> set broken_written"
  "''NOT_MOD_MODDESC_MISSING'' \<in> set broken_written"
  "''NOT_MOD_MODDESC_PARSE_ERROR'' \<in> set broken_written"
  "''NOT_MOD_MODDESC_VERSION_OLD_OR_MISSING'' \<in> set broken_written"
  by (simp_all add: broken_written_def obj_keys_def flag_broken_init_def)

lemma frame_validFileName: "frame st (snd (doStep_validFileName st))"
proof -
  have upd: "\<And>s c. frame s (s\<lparr>fileDetail := c\<rparr>)"
    by (rule frame_same_flags) simp_all
  show ?thesis
    unfolding doStep_validFileName_def Let_def
    by (auto split: option.splits
        intro!: frame_refl frame_raise_broken broken_written_mem
        intro: frame_trans [OF frame_raise_broken frame_raise_broken]
               frame_trans [OF frame_raise_broken upd]
               frame_trans [OF frame_trans [OF frame_raise_broken frame_raise_broken] upd])
qed

lemma frame_upd [simp]:
  "frame st (st'\<lparr>fileDetail := fd\<rparr>) = frame st st'"
  "frame st (st'\<lparr>modDesc := md\<rparr>) = frame st st'"
  "frame st (st'\<lparr>maxFilesType := mf\<rparr>) = frame st st'"
  "frame st (st'\<lparr>modDescParsed := mp\<rparr>) = frame st st'"
  "frame st (st'\<lparr>md5Sum := ms\<rparr>) = frame st st'"
  "frame st (st'\<lparr>l10n := lo\<rparr>) = frame st st'"
  by (simp_all add: frame_def flags_distinct_def)

lemma frame_then_broken:
  "k \<in> set broken_written \<Longrightarrow> frame st st' \<Longrightarrow> frame st (util_raiseFlag_broken st' k)"
  by (blast intro: frame_trans frame_raise_broken)

lemma frame_then_problem:
  "k \<in> set problem_written \<Longrightarrow> frame st st' \<Longrightarrow> frame st (util_raiseFlag_problem st' k)"
  by (blast intro: frame_trans frame_raise_problem)

lemma frame_then_info:
  "k \<in> set info_written \<Longrightarrow> frame st st' \<Longrightarrow> frame st (util_raiseFlag_info st' k)"
  by (blast intro: frame_trans frame_raise_info)

lemma frame_then_set_problem:
  "k \<in> set problem_written \<Longrightarrow> frame st st'
     \<Longrightarrow> frame st (st'\<lparr>flag_problem := obj_set (flag_problem st') k v\<rparr>)"
  by (blast intro: frame_trans frame_set_problem)

lemma frame_then_set_broken:
  "k \<in> set broken_written \<Longrightarrow> frame st st'
     \<Longrightarrow> frame st (st'\<lparr>flag_broken := obj_set (flag_broken st') k v\<rparr>)"
  by (blast intro: frame_trans frame_set_broken)

lemma frame_then_set_info:
  "k \<in> set info_written \<Longrightarrow> frame st st'
     \<Longrightarrow> frame st (st'\<lparr>flag_info := obj_set (flag_info st') k v\<rparr>)"
  by (blast intro: frame_trans frame_set_info)

lemma problem_written_mem:
  "''INFO_MIGHT_BE_PIRACY'' \<in> set problem_written"
  "''MOD_ERROR_NO_MOD_ICON'' \<in> set problem_written"
  "''PERF_DDS_TOO_BIG'' \<in> set problem_written"
  "''PERF_GDM_TOO_BIG'' \<in> set problem_written"
  "''PERF_GRLE_TOO_MANY'' \<in> set problem_written"
  "''PERF_HAS_EXTRA'' \<in> set problem_written"
  "''PERF_I3D_TOO_BIG'' \<in> set problem_written"
  "''PERF_PDF_TOO_MANY'' \<in> set problem_written"
  "''PERF_PNG_TOO_MANY'' \<in> set problem_written"
  "''PERF_SHAPES_TOO_BIG'' \<in> set problem_written"
  "''PERF_SPACE_IN_FILE'' \<in> set problem_written"
  "''PERF_TXT_TOO_MANY'' \<in> set problem_written"
  "''PERF_XML_TOO_BIG'' \<in> set problem_written"
  by (simp_all add: problem_written_def)

lemma broken_written_eq:
  "broken_written =
     [''FILE_ERROR_GARBAGE_FILE'', ''FILE_ERROR_LIKELY_COPY'', ''FILE_ERROR_LIKELY_ZIP_PACK'',
      ''FILE_ERROR_NAME_INVALID'', ''FILE_ERROR_NAME_STARTS_DIGIT'', ''FILE_ERROR_UNREADABLE_ZIP'',
      ''FILE_ERROR_UNSUPPORTED_ARCHIVE'', ''MOD_ERROR_NO_MOD_VERSION'', ''NOT_MOD_MODDESC_MISSING'',
      ''NOT_MOD_MODDESC_PARSE_ERROR'', ''NOT_MOD_MODDESC_VERSION_OLD_OR_MISSING'']"
  by (simp add: broken_written_def obj_keys_def flag_broken_init_def)

lemma info_written_mem:
  "''FILE_IS_A_SAVEGAME'' \<in> set info_written"
  "''MALICIOUS_CODE'' \<in> set info_written"
  "''PERF_L10N_NOT_SET'' \<in> set info_written"
  by (simp_all add: info_written_def)

lemma to_upper_tags:
  "map to_upper ''gdm'' = ''GDM''" "map to_upper ''xml'' = ''XML''"
  "map to_upper ''shapes'' = ''SHAPES''"
  by (simp_all add: to_upper_def lower_chars_def upper_chars_def)

lemma frame_size_check:
  "''PERF_'' @ fp @ ''_TOO_BIG'' \<in> set problem_written \<Longrightarrow> frame st st'
     \<Longrightarrow> frame st (util_size_check st' sz t fn fp)"
  by (auto simp: util_size_check_def split: option.splits intro!: frame_then_problem)

lemma frame_tick_count: "frame st st' \<Longrightarrow> frame st (util_tick_count st' t)"
  by (simp add: util_tick_count_def)

lemma frame_countUnknown: "frame st st' \<Longrightarrow> frame st (snd (util_countUnknown st' sfx fn))"
  by (auto simp: util_countUnknown_def Let_def intro!: frame_then_problem problem_written_mem)

lemma frame_checkLUA: "frame st st' \<Longrightarrow> frame st (util_checkLUA env st' txt)"
  by (auto simp: util_checkLUA_def split: option.splits intro!: frame_then_info info_written_mem)

lemma countUnknown_False: "util_countUnknown st sfx fn = (False, st') \<Longrightarrow> st' = st"
  by (auto simp: util_countUnknown_def Let_def split: if_splits)

lemma countUnknown_known:
  "sfx \<in> set knownGood \<Longrightarrow> util_countUnknown st sfx fn = (False, st)"
  by (simp add: util_countUnknown_def)

lemma frame_countFile: "frame st st' \<Longrightarrow> frame st (util_countFile env st' sfx fn sz txt)"
proof -
  assume f: "frame st st'"
  obtain b st1 where cu: "util_countUnknown st' (drop 1 sfx) fn = (b, st1)"
    by (cases "util_countUnknown st' (drop 1 sfx) fn")
  have f1: "frame st st1"
    using frame_countUnknown [OF f, of "drop 1 sfx" fn] cu by simp
  show ?thesis
    unfolding util_countFile_def Let_def cu
    using f1
    by (cases b)
       (auto simp: to_upper_def lower_chars_def upper_chars_def problem_written_def
        intro!: frame_size_check frame_tick_count frame_checkLUA)
qed

lemma frame_fileCounts_entry: "frame st st' \<Longrightarrow> frame st (fileCounts_entry env st' e)"
  by (auto simp: fileCounts_entry_def Let_def
      intro!: frame_countFile frame_then_problem problem_written_mem)

lemma frame_foldl: "frame st st' \<Longrightarrow> frame st (foldl (fileCounts_entry env) st' es)"
  by (induction es arbitrary: st') (auto intro: frame_fileCounts_entry)

lemma frame_tooMany: "frame st st' \<Longrightarrow> frame st (fileCounts_tooMany st')"
proof -
  assume f: "frame st st'"
  have "frame st' (fileCounts_tooMany st')"
    by (auto simp: fileCounts_tooMany_def frame_def obj_get_set flags_distinct_def
        distinct_obj_set problem_written_def)
  with f show ?thesis by (rule frame_trans)
qed

lemma frame_fileCounts: "frame st st' \<Longrightarrow> frame st (doStep_fileCounts env st' es)"
  by (simp add: doStep_fileCounts_def frame_tooMany frame_foldl)

lemma frame_parseModDesc_tree: "frame st st' \<Longrightarrow> frame st (parseModDesc_tree st' t)"
proof -
  assume f: "frame st st'"
  have "frame st' (parseModDesc_tree st' t)"
    by (auto simp: parseModDesc_tree_def Let_def frame_def obj_get_set flags_distinct_def
        distinct_obj_set problem_written_def broken_written_eq util_raiseFlag_problem_def)
  with f show ?thesis by (rule frame_trans)
qed

lemma frame_parseModDesc: "frame st st' \<Longrightarrow> frame st (doStep_parseModDesc a st')"
  by (auto simp: doStep_parseModDesc_def Let_def split: xml_result.splits
      intro!: frame_then_broken broken_written_mem frame_parseModDesc_tree)

lemma frame_icon: "frame st st' \<Longrightarrow> frame st (getInfo_icon a st')"
  by (auto simp: getInfo_icon_def split: option.splits
      intro!: frame_then_problem problem_written_mem)

lemma frame_l10n: "frame st st' \<Longrightarrow> frame st (doStep_l10n env st')"
proof -
  assume f: "frame st st'"
  have "frame st' (doStep_l10n env st')"
    by (auto simp: doStep_l10n_def Let_def frame_def obj_get_set flags_distinct_def
        distinct_obj_set info_written_def)
  with f show ?thesis by (rule frame_trans)
qed

lemma frame_try: "frame st st' \<Longrightarrow> frame st (getInfo_try env a v st')"
  by (auto simp: getInfo_try_def Let_def
      intro!: frame_then_broken frame_then_info broken_written_mem info_written_mem
              frame_icon frame_parseModDesc frame_fileCounts)

lemma frame_getInfo_state: "frame (constructor env a) (getInfo_state env a)"
proof -
  obtain v st1 where vf: "doStep_validFileName (constructor env a) = (v, st1)"
    by (cases "doStep_validFileName (constructor env a)")
  have "frame (constructor env a) st1"
    using frame_validFileName [of "constructor env a"] vf by simp
  then show ?thesis
    by (simp add: getInfo_state_def vf frame_l10n frame_try)
qed

section \<open>The states of a run\<close>

lemma walk_last: "last (st # fileCounts_walk env st es) = foldl (fileCounts_entry env) st es"
  by (induction es arbitrary: st) auto

lemma walk_frame:
  "frame st0 st \<Longrightarrow> s \<in> set (fileCounts_walk env st es) \<Longrightarrow> frame st0 s"
  by (induction es arbitrary: st) (auto intro: frame_fileCounts_entry)

lemma try_trace_last: "last (getInfo_try_trace env a v st) = getInfo_try env a v st"
  by (simp add: getInfo_try_trace_def getInfo_try_def Let_def)

lemma try_trace_nonempty: "getInfo_try_trace env a v st \<noteq> []"
  by (simp add: getInfo_try_trace_def Let_def)

lemma try_trace_frame:
  assumes "frame st0 st" and "s \<in> set (getInfo_try_trace env a v st)"
  shows "frame st0 s"
proof -
  let ?st = "if \<not> v then util_raiseFlag_broken st ''FILE_ERROR_NAME_INVALID'' else st"
  have f: "frame st0 ?st"
    using assms(1) by (auto intro!: frame_then_broken broken_written_mem)
  have w: "\<And>x. x \<in> set (fileCounts_walk env ?st (h_list a)) \<Longrightarrow> frame st0 x"
    using walk_frame [OF f] by blast
  have c: "frame st0 (doStep_fileCounts env ?st (h_list a))"
    by (intro frame_fileCounts f)
  show ?thesis
    using assms(2) f w c
    unfolding getInfo_try_trace_def Let_def
    by (auto split: if_splits
        intro!: frame_then_broken frame_then_info broken_written_mem info_written_mem
                frame_icon frame_parseModDesc)
qed

lemma trace_last: "last (getInfo_trace env a) = getInfo_state env a"
  by (cases "doStep_validFileName (constructor env a)")
     (simp add: getInfo_trace_def getInfo_state_def Let_def try_trace_last)

lemma trace_frame:
  assumes "s \<in> set (getInfo_trace env a)"
  shows "frame (constructor env a) s"
proof -
  obtain v st1 where vf: "doStep_validFileName (constructor env a) = (v, st1)"
    by (cases "doStep_validFileName (constructor env a)")
  have f1: "frame (constructor env a) st1"
    using frame_validFileName [of "constructor env a"] vf by simp
  have fb: "\<And>x. x \<in> set (getInfo_try_trace env a v st1) \<Longrightarrow> frame (constructor env a) x"
    using try_trace_frame [OF f1] by blast
  have fl: "frame (constructor env a) (last (getInfo_try_trace env a v st1))"
    using fb try_trace_nonempty last_in_set by blast
  show ?thesis
    using assms f1 fb fl
    by (auto simp: getInfo_trace_def vf Let_def frame_refl frame_l10n)
qed

lemma trace_nonempty: "getInfo_trace env a \<noteq> []"
  by (cases "doStep_validFileName (constructor env a)") (simp add: getInfo_trace_def Let_def)

lemma trace_of_walk:
  assumes "doStep_validFileName (constructor env a) = (True, st1)"
    and "h_open a" and "\<not> h_exists a ''careerSavegame.xml''" and "h_exists a ''modDesc.xml''"
  shows "\<exists>xs ys. getInfo_trace env a =
     xs @ doStep_fileCounts env st1 (h_list a)
        # doStep_parseModDesc a (doStep_fileCounts env st1 (h_list a)) # ys"
proof -
  let ?c = "doStep_fileCounts env st1 (h_list a)"
  let ?p = "doStep_parseModDesc a ?c"
  let ?l = "doStep_l10n env (getInfo_icon a ?p)"
  have "getInfo_trace env a =
      ([constructor env a, st1, st1] @ fileCounts_walk env st1 (h_list a))
        @ ?c # ?p # [getInfo_icon a ?p, ?l, ?l\<lparr>modDescParsed := XmlNull\<rparr>]"
    using assms by (simp add: getInfo_trace_def getInfo_try_trace_def Let_def)
  then show ?thesis by blast
qed

lemma getInfo_state_eq:
  "doStep_validFileName (constructor env a) = (v, st1) \<Longrightarrow>
     getInfo_state env a = (doStep_l10n env (getInfo_try env a v st1))\<lparr>modDescParsed := XmlNull\<rparr>"
  by (simp add: getInfo_state_def)

section \<open>The issues list\<close>

lemma constructor_distinct: "flags_distinct (constructor env a)"
  by (simp add: flags_distinct_def constructor_def obj_keys_set)
     (simp add: obj_keys_def flag_broken_init_def flag_problem_init_def flag_info_init_def)

lemma final_distinct: "flags_distinct (getInfo_state env a)"
  using frame_getInfo_state [of env a] constructor_distinct by (simp add: frame_def)

lemma mem_issues:
  assumes "flags_distinct st"
  shows "k \<in> set (issues (storable st)) \<longleftrightarrow>
     (case obj_get (flag_info st) k of
        Some v \<Rightarrow> v
      | None \<Rightarrow> (case obj_get (flag_problem st) k of
                   Some v \<Rightarrow> v
                 | None \<Rightarrow> obj_get (flag_broken st) k = Some True))"
proof -
  let ?m = "obj_spread (obj_spread (obj_spread [] (flag_broken st)) (flag_problem st)) (flag_info st)"
  have d: "distinct (obj_keys ?m)"
    by (intro distinct_spread) (simp add: obj_keys_def)
  have e: "obj_get [] k = (None :: bool option)"
    by (simp add: obj_get_def)
  have "k \<in> set (issues (storable st)) \<longleftrightarrow> obj_get ?m k = Some True"
    using true_keys_mem [OF d] by (simp add: storable_def)
  also have "\<dots> \<longleftrightarrow>
     (case obj_get (flag_info st) k of
        Some v \<Rightarrow> v
      | None \<Rightarrow> (case obj_get (flag_problem st) k of
                   Some v \<Rightarrow> v
                 | None \<Rightarrow> obj_get (flag_broken st) k = Some True))"
    using assms
    by (simp add: obj_get_spread obj_get_rev flags_distinct_def e split: option.splits)
  finally show ?thesis .
qed

lemma issues_getInfo:
  "k \<in> set (issues (getInfo env a)) \<longleftrightarrow>
     (case obj_get (flag_info (getInfo_state env a)) k of
        Some v \<Rightarrow> v
      | None \<Rightarrow> (case obj_get (flag_problem (getInfo_state env a)) k of
                   Some v \<Rightarrow> v
                 | None \<Rightarrow> obj_get (flag_broken (getInfo_state env a)) k = Some True))"
  by (simp add: getInfo_def mem_issues [OF final_distinct])

lemma md5Sum_getInfo: "r_md5Sum (getInfo env a) = md5Sum (getInfo_state env a)"
  by (simp add: getInfo_def storable_def)


lemma broken_names_apart:
  "\<forall>k\<in>set broken_written.
     k \<notin> set (obj_keys flag_problem_init) \<and> k \<notin> set (obj_keys flag_info_init)
     \<and> k \<notin> set problem_written \<and> k \<notin> set info_written"
  by (simp add: broken_written_eq obj_keys_def flag_problem_init_def flag_info_init_def
      problem_written_def info_written_def)

lemma init_lookups:
  "k \<notin> set broken_written \<Longrightarrow> obj_get (flag_broken (constructor env a)) k = None"
  "k \<in> set broken_written \<Longrightarrow> obj_get (flag_problem (constructor env a)) k = None"
  "k \<in> set broken_written \<Longrightarrow> obj_get (flag_info (constructor env a)) k = None"
  "k \<in> set broken_written \<Longrightarrow> k \<notin> set problem_written"
  "k \<in> set broken_written \<Longrightarrow> k \<notin> set info_written"
proof -
  show "k \<notin> set broken_written \<Longrightarrow> obj_get (flag_broken (constructor env a)) k = None"
    by (simp add: constructor_def broken_written_def obj_get_None)
  show "k \<in> set broken_written \<Longrightarrow> obj_get (flag_problem (constructor env a)) k = None"
    using broken_names_apart by (simp add: constructor_def obj_get_None)
  have keys: "obj_keys (obj_set flag_info_init ''INFO_NO_MULTIPLAYER_UNZIPPED'' v) = obj_keys flag_info_init" for v
    by (simp add: obj_keys_def flag_info_init_def)
  show "k \<in> set broken_written \<Longrightarrow> obj_get (flag_info (constructor env a)) k = None"
    using broken_names_apart by (simp add: constructor_def obj_get_None keys)
  show "k \<in> set broken_written \<Longrightarrow> k \<notin> set problem_written"
    using broken_names_apart by blast
  show "k \<in> set broken_written \<Longrightarrow> k \<notin> set info_written"
    using broken_names_apart by blast
qed

section \<open>Save-game detection\<close>

lemma sg_raise [simp]:
  "fileDetail (util_raiseFlag_broken st k) = fileDetail st"
  "fileDetail (util_raiseFlag_problem st k) = fileDetail st"
  "fileDetail (util_raiseFlag_info st k) = fileDetail st"
  by (simp_all add: util_raiseFlag_broken_def util_raiseFlag_problem_def util_raiseFlag_info_def)

lemma sg_validFileName:
  "isSaveGame (fileDetail (snd (doStep_validFileName st))) = isSaveGame (fileDetail st)"
  by (simp add: doStep_validFileName_def Let_def split: option.splits)

lemma sg_countFile:
  "isSaveGame (fileDetail (util_countFile env st sfx fn sz txt)) = isSaveGame (fileDetail st)"
  by (simp add: util_countFile_def util_countUnknown_def util_size_check_def util_tick_count_def
      util_checkLUA_def Let_def split: option.splits)

lemma sg_entry:
  "isSaveGame (fileDetail (fileCounts_entry env st e)) = isSaveGame (fileDetail st)"
  by (simp add: fileCounts_entry_def Let_def sg_countFile)

lemma sg_foldl:
  "isSaveGame (fileDetail (foldl (fileCounts_entry env) st es)) = isSaveGame (fileDetail st)"
  by (induction es arbitrary: st) (simp_all add: sg_entry)

lemma sg_fileCounts:
  "isSaveGame (fileDetail (doStep_fileCounts env st es)) = isSaveGame (fileDetail st)"
  by (simp add: doStep_fileCounts_def fileCounts_tooMany_def sg_foldl)

lemma sg_parseModDesc:
  "isSaveGame (fileDetail (doStep_parseModDesc a st)) = isSaveGame (fileDetail st)"
  by (simp add: doStep_parseModDesc_def parseModDesc_tree_def Let_def split: xml_result.splits)

lemma sg_icon: "isSaveGame (fileDetail (getInfo_icon a st)) = isSaveGame (fileDetail st)"
  by (simp add: getInfo_icon_def split: option.splits)

lemma sg_l10n: "fileDetail (doStep_l10n env st) = fileDetail st"
  by (simp add: doStep_l10n_def Let_def)

lemma sg_try:
  "isSaveGame (fileDetail (getInfo_try env a v st))
     = (savegame_detected a \<or> isSaveGame (fileDetail st))"
  by (simp add: getInfo_try_def Let_def savegame_detected_def sg_icon sg_parseModDesc sg_fileCounts)

lemma sg_final: "isSaveGame (fileDetail (getInfo_state env a)) = savegame_detected a"
proof -
  obtain v st1 where vf: "doStep_validFileName (constructor env a) = (v, st1)"
    by (cases "doStep_validFileName (constructor env a)")
  have "isSaveGame (fileDetail st1) = isSaveGame (fileDetail (constructor env a))"
    using sg_validFileName [of "constructor env a"] vf by simp
  also have "\<dots> = False"
    by (simp add: constructor_def fileDetail_init_def)
  finally show ?thesis
    by (simp add: getInfo_state_def vf sg_l10n sg_try)
qed

lemma isSaveGame_getInfo: "isSaveGame (r_fileDetail (getInfo env a)) = savegame_detected a"
  by (simp add: getInfo_def storable_def sg_final)

lemma canNotUse_getInfo:
  "canNotUse (getInfo env a)
     = (savegame_detected a \<or> some_true (flag_broken (getInfo_state env a)))"
  by (simp add: getInfo_def storable_def doStep_canUse_def sg_final)

section \<open>Evaluating the sample runs\<close>

lemmas name_defs =
  doStep_validFileName_def constructor_def zip_artifact_def fileDetail_init_def
  endsWith_def startsWith_def match_unzip_def match_starts_digit_def match_identifier_def
  match_copy_def match_tail_def is_digit_def is_alpha_def is_word_def is_line_terminator_def
  upper_chars_def lower_chars_def to_lower_def

lemmas stage_defs =
  constructor_def getInfo_try_def doStep_l10n_def modDesc_localString_def tree_get_def
  string_get_def locales_get_def array_index_def digit_value_def
  util_raiseFlag_broken_def util_raiseFlag_info_def util_raiseFlag_problem_def
  flag_broken_init_def flag_info_init_def flag_problem_init_def modDesc_init_def
  fileDetail_init_def maxFilesType_init_def endsWith_def startsWith_def is_digit_def
  upper_chars_def lower_chars_def to_lower_def to_upper_def
  doStep_fileCounts_def fileCounts_entry_def fileCounts_tooMany_def quota_below_1_def
  util_countFile_def util_countUnknown_def knownGood_def util_size_check_def util_tick_count_def
  util_checkLUA_def fileSizeMap_def doStep_parseModDesc_def parseModDesc_tree_def
  modDesc_default_def declared_icon_def icon_dds_name_def getInfo_icon_def obj_get_def flag_set_def
  sample_env_def sample_tree_def plain_file_def directory_def zip_artifact_def Let_def

lemma valid_mod_name:
  "doStep_validFileName (constructor env (zip_artifact ''FS22_Mod.zip'' ''FS22_Mod'' es x))
     = (True, constructor env (zip_artifact ''FS22_Mod.zip'' ''FS22_Mod'' es x))"
  by (simp add: name_defs)

lemma valid_savegame_name:
  "doStep_validFileName (constructor env (zip_artifact ''savegame1.zip'' ''savegame1'' es x))
     = (True, constructor env (zip_artifact ''savegame1.zip'' ''savegame1'' es x))"
  by (simp add: name_defs)

lemma digit_name:
  "doStep_validFileName (constructor env (zip_artifact ''1mod.zip'' ''1mod'' es x))
     = (False, util_raiseFlag_broken (constructor env (zip_artifact ''1mod.zip'' ''1mod'' es x))
                 ''FILE_ERROR_NAME_STARTS_DIGIT'')"
  by (simp add: name_defs)


section \<open>Usability\<close>

lemma broken_in_issues:
  "some_true (flag_broken (getInfo_state env a))
     = (\<exists>k\<in>set (obj_keys flag_broken_init). k \<in> set (issues (getInfo env a)))"
proof -
  let ?st = "getInfo_state env a"
  have fr: "frame (constructor env a) ?st" by (rule frame_getInfo_state)
  have d: "flags_distinct ?st" by (rule final_distinct)
  have in_iss: "k \<in> set (issues (getInfo env a)) \<longleftrightarrow> obj_get (flag_broken ?st) k = Some True"
    if "k \<in> set broken_written" for k
  proof -
    have "obj_get (flag_problem ?st) k = None" "obj_get (flag_info ?st) k = None"
      using fr that init_lookups(2-5) [of k] by (simp_all add: frame_def)
    then show ?thesis
      by (simp add: getInfo_def mem_issues [OF d])
  qed
  have keys: "k \<in> set broken_written" if "obj_get (flag_broken ?st) k = Some True" for k
  proof (rule ccontr)
    assume "k \<notin> set broken_written"
    then have "obj_get (flag_broken ?st) k = None"
      using fr init_lookups(1) [of k] by (simp add: frame_def)
    with that show False by simp
  qed
  have get: "(k, True) \<in> set (flag_broken ?st) \<longleftrightarrow> obj_get (flag_broken ?st) k = Some True" for k
    using d by (simp add: flags_distinct_def obj_get_def obj_keys_def)
  show ?thesis
    unfolding some_true_iff get
    using in_iss keys by (auto simp: broken_written_def)
qed

text \<open>
  Claim C1, as the code has it. In every run the report marks the artifact as a save-game
  exactly when it was detected as one; \<open>canNotUse\<close> is true exactly when the artifact is a
  save-game or some broken flag is true; and some broken flag is true exactly when the
  name of a broken flag is in the issues list. So an artifact that is no save-game is
  reported usable (\<open>canNotUse = False\<close>) exactly when every broken flag is false, and a
  save-game is always reported with \<open>canNotUse = True\<close>, whatever flags were raised.
\<close>

theorem canNotUse_report:
  "isSaveGame (r_fileDetail (getInfo env a)) = savegame_detected a
   \<and> canNotUse (getInfo env a)
       = (savegame_detected a \<or> some_true (flag_broken (getInfo_state env a)))
   \<and> some_true (flag_broken (getInfo_state env a))
       = (\<exists>k\<in>set (obj_keys flag_broken_init). k \<in> set (issues (getInfo env a)))"
proof -
  have sg: "isSaveGame (r_fileDetail (getInfo env a)) = savegame_detected a"
    by (simp add: getInfo_def storable_def sg_final)
  have cu: "canNotUse (getInfo env a)
       = (savegame_detected a \<or> some_true (flag_broken (getInfo_state env a)))"
    by (simp add: getInfo_def storable_def doStep_canUse_def sg_final)
  show ?thesis
    using sg cu broken_in_issues [of env a] by blast
qed

text \<open>
  Claim C1 as it is stated fails on a save-game: the archive \<^verbatim>\<open>savegame1.zip\<close> holds
  \<^verbatim>\<open>careerSavegame.xml\<close>, no broken flag is raised, the report marks it as a save-game, and
  \<open>canNotUse\<close> is true.
\<close>

theorem savegame_reported_unusable:
  "savegame_detected art_savegame
   \<and> \<not> some_true (flag_broken (getInfo_state sample_env art_savegame))
   \<and> isSaveGame (r_fileDetail (getInfo sample_env art_savegame))
   \<and> canNotUse (getInfo sample_env art_savegame)"
proof -
  have sd: "savegame_detected art_savegame"
    by (simp add: savegame_detected_def art_savegame_def zip_artifact_def plain_file_def)
  have "flag_broken (getInfo_state sample_env art_savegame) = flag_broken_init"
    unfolding art_savegame_def getInfo_state_eq [OF valid_savegame_name]
    by (simp add: stage_defs)
  then have "\<not> some_true (flag_broken (getInfo_state sample_env art_savegame))"
    by (simp add: some_true_def flag_broken_init_def)
  with sd show ?thesis
    by (simp add: canNotUse_getInfo isSaveGame_getInfo)
qed

section \<open>Uniqueness and monotonicity of the flags\<close>

lemma l10n_key_info: "''PERF_L10N_NOT_SET'' \<in> set (obj_keys (flag_info (getInfo_state env a)))"
  by (cases "doStep_validFileName (constructor env a)")
     (simp add: getInfo_state_def doStep_l10n_def Let_def obj_keys_set)

lemma l10n_problem_false:
  "obj_get (flag_problem (getInfo_state env a)) ''PERF_L10N_NOT_SET'' = Some False"
proof -
  have "''PERF_L10N_NOT_SET'' \<notin> set problem_written"
    by (simp add: problem_written_def)
  moreover have "obj_get (flag_problem (constructor env a)) ''PERF_L10N_NOT_SET'' = Some False"
    by (simp add: constructor_def obj_get_def flag_problem_init_def)
  ultimately show ?thesis
    using frame_getInfo_state [of env a] by (simp add: frame_def)
qed

lemma l10n_key_problem:
  "''PERF_L10N_NOT_SET'' \<in> set (obj_keys (flag_problem (getInfo_state env a)))"
  using l10n_problem_false [of env a] obj_get_None [of "flag_problem (getInfo_state env a)"]
  by force

lemma never_cleared_split:
  "never_cleared k (xs @ m # m' # ys) \<Longrightarrow> flag_set m k \<Longrightarrow> flag_set m' k"
proof (induction xs)
  case Nil
  then show ?case by (simp split: if_splits)
next
  case (Cons x xs)
  then show ?case by (cases xs) (simp_all split: if_splits)
qed

lemma piracy_after_parse:
  "h_readXML a = XmlTree t \<Longrightarrow>
     obj_get (flag_problem (doStep_parseModDesc a st)) ''INFO_MIGHT_BE_PIRACY''
       = Some (x_has_productid t)"
  by (simp add: doStep_parseModDesc_def parseModDesc_tree_def Let_def
      util_raiseFlag_problem_def obj_get_set)

text \<open>
  Claim C2 at a mod that lists \<^verbatim>\<open>key.dat\<close> beside its descriptor and icon. The walk raises
  \<^verbatim>\<open>INFO_MIGHT_BE_PIRACY\<close> for the \<^verbatim>\<open>dat\<close> file and the descriptor step assigns it back to
  false, so the problem flags of the run are not monotone; and when the run ends the name
  \<^verbatim>\<open>PERF_L10N_NOT_SET\<close> is a key of the problem flags and of the info flags.
\<close>

theorem piracy_flag_cleared:
  "\<not> never_cleared ''INFO_MIGHT_BE_PIRACY'' (map flag_problem (getInfo_trace sample_env art_dat))
   \<and> ''PERF_L10N_NOT_SET'' \<in> set (obj_keys (flag_problem (getInfo_state sample_env art_dat)))
   \<and> ''PERF_L10N_NOT_SET'' \<in> set (obj_keys (flag_info (getInfo_state sample_env art_dat)))"
proof -
  let ?k = "''INFO_MIGHT_BE_PIRACY''"
  let ?c = "doStep_fileCounts sample_env (constructor sample_env art_dat) (h_list art_dat)"
  have vf: "doStep_validFileName (constructor sample_env art_dat)
      = (True, constructor sample_env art_dat)"
    by (simp add: art_dat_def mod_artifact_def valid_mod_name)
  have h: "h_open art_dat" "\<not> h_exists art_dat ''careerSavegame.xml''"
    "h_exists art_dat ''modDesc.xml''" "h_readXML art_dat = XmlTree sample_tree"
    by (simp_all add: art_dat_def mod_artifact_def zip_artifact_def plain_file_def)
  obtain xs ys where tr: "getInfo_trace sample_env art_dat =
      xs @ ?c # doStep_parseModDesc art_dat ?c # ys"
    using trace_of_walk [OF vf h(1-3)] by blast
  have "\<exists>S. ?c = S \<and> flag_set (flag_problem S) ?k"
    unfolding art_dat_def mod_artifact_def
    apply (rule exI)
    apply (rule conjI)
     apply (simp add: stage_defs)
    apply (simp add: flag_set_def obj_get_def)
    done
  then have raised: "flag_set (flag_problem ?c) ?k"
    by simp
  have cleared: "\<not> flag_set (flag_problem (doStep_parseModDesc art_dat ?c)) ?k"
    by (simp add: flag_set_def piracy_after_parse [OF h(4)] sample_tree_def)
  have "\<not> never_cleared ?k (map flag_problem (getInfo_trace sample_env art_dat))"
  proof
    assume "never_cleared ?k (map flag_problem (getInfo_trace sample_env art_dat))"
    then have "never_cleared ?k (map flag_problem xs @ flag_problem ?c
        # flag_problem (doStep_parseModDesc art_dat ?c) # map flag_problem ys)"
      by (simp add: tr)
    from never_cleared_split [OF this raised] cleared show False by simp
  qed
  then show ?thesis
    using l10n_key_problem l10n_key_info by simp
qed

section \<open>The localization flag\<close>

text \<open>
  Claim C3 at a mod whose descriptor has neither title nor description. The resolved title
  is the fallback \<^verbatim>\<open>--\<close> and the artifact is no save-game, but the problem flag
  \<^verbatim>\<open>PERF_L10N_NOT_SET\<close> stays false: the value is stored under that name in the info flags.
  The name is in the issues list and the report has no problem badge.
\<close>

theorem l10n_flag_misfiled:
  "r_l10n (getInfo sample_env art_plain) = Some (L10nText ''--'', L10nText [])
   \<and> \<not> isSaveGame (r_fileDetail (getInfo sample_env art_plain))
   \<and> \<not> flag_set (flag_problem (getInfo_state sample_env art_plain)) ''PERF_L10N_NOT_SET''
   \<and> flag_set (flag_info (getInfo_state sample_env art_plain)) ''PERF_L10N_NOT_SET''
   \<and> ''PERF_L10N_NOT_SET'' \<in> set (issues (getInfo sample_env art_plain))
   \<and> ''problem'' \<notin> set (badgeArray (getInfo sample_env art_plain))"
proof -
  let ?k = "''PERF_L10N_NOT_SET''"
  have "\<exists>S. getInfo_state sample_env art_plain = S \<and>
      (l10n S = Some (L10nText ''--'', L10nText [])
       \<and> obj_get (flag_problem S) ?k = Some False
       \<and> obj_get (flag_info S) ?k = Some True
       \<and> doStep_badges S = [])"
    unfolding art_plain_def mod_artifact_def getInfo_state_eq [OF valid_mod_name]
    apply (rule exI)
    apply (rule conjI)
     apply (simp add: stage_defs)
    apply (simp add: obj_get_def doStep_badges_def true_keys_def some_true_def flag_set_def)
    done
  then have e: "l10n (getInfo_state sample_env art_plain) = Some (L10nText ''--'', L10nText [])"
    "obj_get (flag_problem (getInfo_state sample_env art_plain)) ?k = Some False"
    "obj_get (flag_info (getInfo_state sample_env art_plain)) ?k = Some True"
    "doStep_badges (getInfo_state sample_env art_plain) = []"
    by simp_all
  have sg: "\<not> savegame_detected art_plain"
    by (simp add: savegame_detected_def art_plain_def mod_artifact_def zip_artifact_def plain_file_def)
  have r: "r_l10n (getInfo sample_env art_plain) = l10n (getInfo_state sample_env art_plain)"
    "badgeArray (getInfo sample_env art_plain) = doStep_badges (getInfo_state sample_env art_plain)"
    by (simp_all add: getInfo_def storable_def)
  show ?thesis
    using e sg by (simp add: r isSaveGame_getInfo issues_getInfo flag_set_def)
qed

section \<open>The quotas\<close>

lemma size_check_quota: "maxFilesType (util_size_check st sz t fn fp) = maxFilesType st"
  by (simp add: util_size_check_def util_raiseFlag_problem_def split: option.splits)

lemma checkLUA_quota: "maxFilesType (util_checkLUA env st txt) = maxFilesType st"
  by (simp add: util_checkLUA_def util_raiseFlag_info_def split: option.splits)

lemma countUnknown_quota: "maxFilesType (snd (util_countUnknown st sfx fn)) = maxFilesType st"
  by (simp add: util_countUnknown_def util_raiseFlag_problem_def Let_def)

lemma dotted_unknown:
  "sfx \<in> set knownGood \<Longrightarrow> sfx \<noteq> ''.grle'' \<and> sfx \<noteq> ''.pdf'' \<and> sfx \<noteq> ''.txt''"
  by (auto simp: knownGood_def)

lemma countFile_quota:
  assumes "t \<noteq> ''png''"
  shows "obj_get (maxFilesType (util_countFile env st sfx fn sz txt)) t = obj_get (maxFilesType st) t"
proof (cases "drop 1 sfx \<in> set knownGood")
  case True
  note d = dotted_unknown [OF True]
  show ?thesis
    unfolding util_countFile_def Let_def countUnknown_known [OF True]
    using assms d
    by (simp add: util_tick_count_def obj_get_set size_check_quota checkLUA_quota)
next
  case False
  then have "util_countUnknown st (drop 1 sfx) fn = (True, snd (util_countUnknown st (drop 1 sfx) fn))"
    by (simp add: util_countUnknown_def Let_def)
  then obtain st1 where "util_countUnknown st (drop 1 sfx) fn = (True, st1)"
    and "maxFilesType st1 = maxFilesType st"
    using countUnknown_quota [of st "drop 1 sfx" fn] by simp
  then show ?thesis
    unfolding util_countFile_def Let_def by simp
qed

lemma entry_quota:
  "t \<noteq> ''png'' \<Longrightarrow>
     obj_get (maxFilesType (fileCounts_entry env st e)) t = obj_get (maxFilesType st) t"
  by (simp add: fileCounts_entry_def Let_def countFile_quota util_raiseFlag_problem_def)

lemma foldl_quota:
  "t \<noteq> ''png'' \<Longrightarrow>
     obj_get (maxFilesType (foldl (fileCounts_entry env) st es)) t = obj_get (maxFilesType st) t"
  by (induction es arbitrary: st) (simp_all add: entry_quota)

lemma walk_never_ticks:
  assumes "t \<noteq> ''png''"
  shows "obj_get (maxFilesType (doStep_fileCounts env st es)) t = obj_get (maxFilesType st) t"
  by (simp add: doStep_fileCounts_def fileCounts_tooMany_def foldl_quota [OF assms])

lemma quota_steps:
  "maxFilesType (snd (doStep_validFileName st)) = maxFilesType st"
  "maxFilesType (doStep_parseModDesc a st) = maxFilesType st"
  "maxFilesType (getInfo_icon a st) = maxFilesType st"
  "maxFilesType (doStep_l10n env st) = maxFilesType st"
  by (simp_all add: doStep_validFileName_def doStep_parseModDesc_def parseModDesc_tree_def
      getInfo_icon_def doStep_l10n_def util_raiseFlag_broken_def util_raiseFlag_problem_def
      Let_def split: option.splits xml_result.splits)

lemma try_quota:
  "t \<noteq> ''png'' \<Longrightarrow>
     obj_get (maxFilesType (getInfo_try env a v st)) t = obj_get (maxFilesType st) t"
  by (simp add: getInfo_try_def Let_def quota_steps walk_never_ticks
      util_raiseFlag_broken_def util_raiseFlag_info_def)

text \<open>
  In every run the quotas of \<^verbatim>\<open>grle\<close>, \<^verbatim>\<open>pdf\<close> and \<^verbatim>\<open>txt\<close> end as they started: the
  case labels that would tick them are written with a dot, and a suffix with a dot is no
  known suffix.
\<close>

lemma final_quota:
  assumes "t \<noteq> ''png''"
  shows "obj_get (maxFilesType (getInfo_state env a)) t = obj_get maxFilesType_init t"
proof -
  obtain v st1 where vf: "doStep_validFileName (constructor env a) = (v, st1)"
    by (cases "doStep_validFileName (constructor env a)")
  have "maxFilesType st1 = maxFilesType_init"
    using quota_steps(1) [of "constructor env a"] vf by (simp add: constructor_def)
  then show ?thesis
    by (simp add: getInfo_state_eq [OF vf] quota_steps try_quota [OF assms])
qed

text \<open>
  Claim C4 at a mod that lists three \<^verbatim>\<open>txt\<close> files. The quota of \<^verbatim>\<open>txt\<close> is still 2 when
  the run ends, \<^verbatim>\<open>PERF_TXT_TOO_MANY\<close> is false and is not in the issues list.
\<close>

theorem txt_quota_untouched:
  "map e_extname (h_list art_txt) = [''.txt'', ''.txt'', ''.txt'', ''.xml'', ''.dds'']
   \<and> obj_get (maxFilesType (getInfo_state sample_env art_txt)) ''txt'' = Some (Some 2)
   \<and> \<not> flag_set (flag_problem (getInfo_state sample_env art_txt)) ''PERF_TXT_TOO_MANY''
   \<and> ''PERF_TXT_TOO_MANY'' \<notin> set (issues (getInfo sample_env art_txt))"
proof -
  let ?k = "''PERF_TXT_TOO_MANY''"
  have l: "map e_extname (h_list art_txt) = [''.txt'', ''.txt'', ''.txt'', ''.xml'', ''.dds'']"
    by (simp add: art_txt_def mod_artifact_def zip_artifact_def plain_file_def)
  have "\<exists>S. getInfo_state sample_env art_txt = S \<and>
      (obj_get (maxFilesType S) ''txt'' = Some (Some 2)
       \<and> obj_get (flag_problem S) ?k = Some False
       \<and> obj_get (flag_info S) ?k = None)"
    unfolding art_txt_def mod_artifact_def getInfo_state_eq [OF valid_mod_name]
    apply (rule exI)
    apply (rule conjI)
     apply (simp add: stage_defs)
    apply (simp add: obj_get_def)
    done
  then show ?thesis
    using l by (simp add: issues_getInfo flag_set_def)
qed

section \<open>A missing descriptor\<close>

lemma md5Sum_l10n: "md5Sum (doStep_l10n env st) = md5Sum st"
  by (simp add: doStep_l10n_def Let_def)

lemma flag_broken_l10n: "flag_broken (doStep_l10n env st) = flag_broken st"
  by (simp add: doStep_l10n_def Let_def)

text \<open>
  Claim C5, as the code has it. For every artifact whose archive opens and which holds
  neither \<^verbatim>\<open>careerSavegame.xml\<close> nor \<^verbatim>\<open>modDesc.xml\<close>, \<open>canNotUse\<close> is true; and when in
  addition the name of the artifact passes the name validator, the issues list of the
  report contains \<^verbatim>\<open>NOT_MOD_MODDESC_MISSING\<close> and \<open>md5Sum\<close> is null.
\<close>

theorem missing_descriptor:
  assumes "h_open a"
    and "\<not> h_exists a ''careerSavegame.xml''"
    and "\<not> h_exists a ''modDesc.xml''"
  shows "canNotUse (getInfo env a)
    \<and> (fst (doStep_validFileName (constructor env a)) \<longrightarrow>
         ''NOT_MOD_MODDESC_MISSING'' \<in> set (issues (getInfo env a))
         \<and> r_md5Sum (getInfo env a) = None)"
proof -
  let ?k = "''NOT_MOD_MODDESC_MISSING''"
  let ?n = "''FILE_ERROR_NAME_INVALID''"
  obtain v st1 where vf: "doStep_validFileName (constructor env a) = (v, st1)"
    by (cases "doStep_validFileName (constructor env a)")
  have st: "getInfo_state env a
      = (doStep_l10n env (getInfo_try env a v st1))\<lparr>modDescParsed := XmlNull\<rparr>"
    by (rule getInfo_state_eq [OF vf])
  have raised: "canNotUse (getInfo env a)"
    if "obj_get (flag_broken (getInfo_state env a)) k = Some True" for k
  proof -
    from that have "(k, True) \<in> set (flag_broken (getInfo_state env a))"
      by (simp add: obj_get_def map_of_SomeD)
    then show ?thesis
      by (auto simp: canNotUse_getInfo some_true_iff)
  qed
  show ?thesis
  proof (cases v)
    case False
    have "getInfo_try env a v st1 = util_raiseFlag_broken st1 ?n"
      using assms False by (simp add: getInfo_try_def)
    then have "obj_get (flag_broken (getInfo_state env a)) ?n = Some True"
      by (simp add: st flag_broken_l10n util_raiseFlag_broken_def obj_get_set)
    then have "canNotUse (getInfo env a)"
      by (rule raised)
    then show ?thesis
      using False by (simp add: vf)
  next
    case True
    have tr: "getInfo_try env a v st1 = (util_raiseFlag_broken st1 ?k)\<lparr>md5Sum := None\<rparr>"
      using assms True by (simp add: getInfo_try_def)
    have md: "r_md5Sum (getInfo env a) = None"
      by (simp add: getInfo_def storable_def st tr md5Sum_l10n)
    have br: "obj_get (flag_broken (getInfo_state env a)) ?k = Some True"
      by (simp add: st tr flag_broken_l10n util_raiseFlag_broken_def obj_get_set)
    then have cu: "canNotUse (getInfo env a)"
      by (rule raised)
    have kb: "?k \<in> set broken_written"
      by (rule broken_written_mem)
    have "obj_get (flag_problem (getInfo_state env a)) ?k = None"
         "obj_get (flag_info (getInfo_state env a)) ?k = None"
      using frame_getInfo_state [of env a] init_lookups(2-5) [OF kb]
      by (simp_all add: frame_def)
    then have "?k \<in> set (issues (getInfo env a))"
      using br by (simp add: getInfo_def mem_issues [OF final_distinct])
    with cu md show ?thesis by simp
  qed
qed

text \<open>
  The archive \<^verbatim>\<open>FS22_Mod.zip\<close>, which opens and is empty, meets the hypotheses of claim C5
  as amended.
\<close>

theorem missing_descriptor_witness:
  "fst (doStep_validFileName (constructor sample_env art_nodesc))
   \<and> h_open art_nodesc
   \<and> \<not> h_exists art_nodesc ''careerSavegame.xml''
   \<and> \<not> h_exists art_nodesc ''modDesc.xml''
   \<and> ''NOT_MOD_MODDESC_MISSING'' \<in> set (issues (getInfo sample_env art_nodesc))
   \<and> canNotUse (getInfo sample_env art_nodesc)
   \<and> r_md5Sum (getInfo sample_env art_nodesc) = None"
proof -
  have v: "fst (doStep_validFileName (constructor sample_env art_nodesc))"
    by (simp add: art_nodesc_def valid_mod_name)
  have h: "h_open art_nodesc" "\<not> h_exists art_nodesc ''careerSavegame.xml''"
    "\<not> h_exists art_nodesc ''modDesc.xml''"
    by (simp_all add: art_nodesc_def zip_artifact_def)
  show ?thesis
    using v h missing_descriptor [OF h, of sample_env] by simp
qed

text \<open>
  Claim C5 as it is stated fails on an artifact with an invalid name: \<^verbatim>\<open>1mod.zip\<close> opens,
  is no save-game and holds no \<^verbatim>\<open>modDesc.xml\<close>, but the run stops at the name check, so
  \<^verbatim>\<open>NOT_MOD_MODDESC_MISSING\<close> is not in the issues list and the checksum given to the
  constructor is kept. The artifact can not be used all the same: the name check has
  raised \<^verbatim>\<open>FILE_ERROR_NAME_INVALID\<close>.
\<close>

theorem invalid_name_keeps_checksum:
  "h_open art_digit
   \<and> \<not> h_exists art_digit ''careerSavegame.xml''
   \<and> \<not> h_exists art_digit ''modDesc.xml''
   \<and> ''NOT_MOD_MODDESC_MISSING'' \<notin> set (issues (getInfo sample_env art_digit))
   \<and> r_md5Sum (getInfo sample_env art_digit) = Some ''d41d8cd9''"
proof -
  have h: "h_open art_digit" "\<not> h_exists art_digit ''careerSavegame.xml''"
    "\<not> h_exists art_digit ''modDesc.xml''"
    by (simp_all add: art_digit_def zip_artifact_def)
  have "\<exists>S. getInfo_state sample_env art_digit = S \<and>
      (obj_get (flag_info S) ''NOT_MOD_MODDESC_MISSING'' = None
       \<and> obj_get (flag_problem S) ''NOT_MOD_MODDESC_MISSING'' = None
       \<and> obj_get (flag_broken S) ''NOT_MOD_MODDESC_MISSING'' = Some False
       \<and> md5Sum S = Some ''d41d8cd9'')"
    unfolding art_digit_def getInfo_state_eq [OF digit_name]
    apply (rule exI)
    apply (rule conjI)
     apply (simp add: stage_defs)
    apply (simp add: obj_get_def)
    done
  then show ?thesis
    using h by (auto simp: issues_getInfo md5Sum_getInfo)
qed

section \<open>Directories\<close>

text \<open>
  Claim C6, as the code has it. For a listed entry that is a directory the classification by
  extension is skipped: no classification list other than the space-files list changes,
  neither do the quotas, the descriptor fields, the broken flags, the info flags and every
  problem flag other than \<^verbatim>\<open>PERF_SPACE_IN_FILE\<close>. The check for a space comes before the
  skip: a directory whose name contains a space is appended to the space-files list and
  raises \<^verbatim>\<open>PERF_SPACE_IN_FILE\<close>; any other directory leaves the state as it was.
\<close>

theorem directory_entry:
  assumes "e_isFolder e"
  shows "extraFiles (fileDetail (fileCounts_entry env st e)) = extraFiles (fileDetail st)
    \<and> i3dFiles (fileDetail (fileCounts_entry env st e)) = i3dFiles (fileDetail st)
    \<and> imageDDS (fileDetail (fileCounts_entry env st e)) = imageDDS (fileDetail st)
    \<and> imageNonDDS (fileDetail (fileCounts_entry env st e)) = imageNonDDS (fileDetail st)
    \<and> pngTexture (fileDetail (fileCounts_entry env st e)) = pngTexture (fileDetail st)
    \<and> tooBigFiles (fileDetail (fileCounts_entry env st e)) = tooBigFiles (fileDetail st)
    \<and> maxFilesType (fileCounts_entry env st e) = maxFilesType st
    \<and> modDesc (fileCounts_entry env st e) = modDesc st
    \<and> flag_broken (fileCounts_entry env st e) = flag_broken st
    \<and> flag_info (fileCounts_entry env st e) = flag_info st
    \<and> (\<forall>k. k \<noteq> ''PERF_SPACE_IN_FILE'' \<longrightarrow>
          obj_get (flag_problem (fileCounts_entry env st e)) k = obj_get (flag_problem st) k)
    \<and> (if str_includes (e_name e) '' ''
        then spaceFiles (fileDetail (fileCounts_entry env st e))
               = spaceFiles (fileDetail st) @ [e_name e]
             \<and> flag_set (flag_problem (fileCounts_entry env st e)) ''PERF_SPACE_IN_FILE''
        else fileCounts_entry env st e = st)"
  using assms
  by (simp add: fileCounts_entry_def Let_def util_raiseFlag_problem_def obj_get_set flag_set_def)

text \<open>
  The directory \<^verbatim>\<open>maps\<close> meets the hypothesis of claim C6 as amended, and leaves the state
  as it was.
\<close>

theorem directory_entry_witness:
  "e_isFolder (directory ''maps'')
   \<and> fileCounts_entry sample_env (constructor sample_env art_plain) (directory ''maps'')
       = constructor sample_env art_plain"
proof -
  have f: "e_isFolder (directory ''maps'')"
    by (simp add: directory_def)
  have n: "\<not> str_includes (e_name (directory ''maps'')) '' ''"
    by (simp add: directory_def startsWith_def)
  show ?thesis
    using f n directory_entry [OF f, of sample_env "constructor sample_env art_plain"]
    by simp
qed

text \<open>
  Claim C6 as it is stated fails on the directory \<^verbatim>\<open>my maps\<close>: it is appended to the
  space-files list and raises \<^verbatim>\<open>PERF_SPACE_IN_FILE\<close>.
\<close>

theorem spaced_directory_listed:
  "e_isFolder (directory ''my maps'')
   \<and> spaceFiles (fileDetail (fileCounts_entry sample_env (constructor sample_env art_plain)
        (directory ''my maps''))) = [''my maps'']
   \<and> flag_set (flag_problem (fileCounts_entry sample_env (constructor sample_env art_plain)
        (directory ''my maps''))) ''PERF_SPACE_IN_FILE''"
  by (simp add: fileCounts_entry_def directory_def constructor_def fileDetail_init_def
      util_raiseFlag_problem_def flag_set_def obj_get_set startsWith_def Let_def)

section \<open>Oversized files\<close>




lemma sized_known:
  "obj_get fileSizeMap sfx = Some limit \<Longrightarrow> sfx \<in> set knownGood"
  by (auto simp: fileSizeMap_def obj_get_def knownGood_def split: if_splits)






























section \<open>The icon file name\<close>

text \<open>
  Claim C8. When the descriptor declares an icon file name \<open>s\<close> (as a scalar or as the first
  element of a list) that does not end in \<^verbatim>\<open>.dds\<close>, the name looked up is \<open>s\<close> without its
  last four characters (without all of them when it has fewer) followed by \<^verbatim>\<open>.dds\<close>. If
  that name is in the list of DDS images it becomes the icon file name and the descriptor
  step leaves \<^verbatim>\<open>MOD_ERROR_NO_MOD_ICON\<close> as it was; otherwise the step raises
  \<^verbatim>\<open>MOD_ERROR_NO_MOD_ICON\<close> and leaves the icon file name as it was.
\<close>

theorem icon_resolution:
  assumes "h_readXML a = XmlTree t"
    and "x_iconfilename t = IconScalar s \<or> x_iconfilename t = IconFirst s"
    and "\<not> endsWith s ''.dds''"
  shows "if take (length s - 4) s @ ''.dds'' \<in> set (imageDDS (fileDetail st))
     then iconFileName (modDesc (doStep_parseModDesc a st)) = Some (take (length s - 4) s @ ''.dds'')
          \<and> obj_get (flag_problem (doStep_parseModDesc a st)) ''MOD_ERROR_NO_MOD_ICON''
              = obj_get (flag_problem st) ''MOD_ERROR_NO_MOD_ICON''
     else iconFileName (modDesc (doStep_parseModDesc a st)) = iconFileName (modDesc st)
          \<and> flag_set (flag_problem (doStep_parseModDesc a st)) ''MOD_ERROR_NO_MOD_ICON''"
proof -
  have n: "icon_dds_name (declared_icon (x_iconfilename t)) = take (length s - 4) s @ ''.dds''"
    using assms(2,3) by (auto simp: icon_dds_name_def declared_icon_def)
  show ?thesis
    using assms(1) n
    by (simp add: doStep_parseModDesc_def parseModDesc_tree_def Let_def
        util_raiseFlag_problem_def obj_get_set flag_set_def)
qed

text \<open>
  Claim C8 at the example of the specification: the descriptor declares \<^verbatim>\<open>icon.png\<close>, the
  walk has collected \<^verbatim>\<open>icon.dds\<close>; the icon file name is \<^verbatim>\<open>icon.dds\<close> and
  \<^verbatim>\<open>MOD_ERROR_NO_MOD_ICON\<close> is not raised.
\<close>

theorem icon_resolution_witness:
  "h_readXML art_plain = XmlTree sample_tree
   \<and> x_iconfilename sample_tree = IconScalar ''icon.png''
   \<and> \<not> endsWith ''icon.png'' ''.dds''
   \<and> imageDDS (fileDetail (doStep_fileCounts sample_env (constructor sample_env art_plain)
        (h_list art_plain))) = [''icon.dds'']
   \<and> iconFileName (modDesc (doStep_parseModDesc art_plain
        (doStep_fileCounts sample_env (constructor sample_env art_plain) (h_list art_plain))))
       = Some ''icon.dds''
   \<and> \<not> flag_set (flag_problem (doStep_parseModDesc art_plain
        (doStep_fileCounts sample_env (constructor sample_env art_plain) (h_list art_plain))))
        ''MOD_ERROR_NO_MOD_ICON''"
proof -
  let ?st = "doStep_fileCounts sample_env (constructor sample_env art_plain) (h_list art_plain)"
  have x: "h_readXML art_plain = XmlTree sample_tree"
    by (simp add: art_plain_def mod_artifact_def zip_artifact_def plain_file_def)
  have i: "x_iconfilename sample_tree = IconScalar ''icon.png'' \<or>
      x_iconfilename sample_tree = IconFirst ''icon.png''"
    by (simp add: sample_tree_def)
  have e: "\<not> endsWith ''icon.png'' ''.dds''"
    by (simp add: endsWith_def)
  have "\<exists>S. ?st = S \<and>
      (imageDDS (fileDetail S) = [''icon.dds'']
       \<and> obj_get (flag_problem S) ''MOD_ERROR_NO_MOD_ICON'' = Some False)"
    unfolding art_plain_def mod_artifact_def
    apply (rule exI)
    apply (rule conjI)
     apply (simp add: stage_defs)
    apply (simp add: obj_get_def)
    done
  then have s: "imageDDS (fileDetail ?st) = [''icon.dds'']"
    "obj_get (flag_problem ?st) ''MOD_ERROR_NO_MOD_ICON'' = Some False"
    by simp_all
  show ?thesis
    using x e s icon_resolution [OF x i e, of ?st]
    by (simp add: sample_tree_def flag_set_def)
qed

section \<open>Flags that no step raises\<close>

text \<open>
  Claim C9. In every state of every run the problem flags
  \<^verbatim>\<open>MOD_ERROR_MODDESC_DAMAGED_RECOVERABLE\<close> and \<^verbatim>\<open>PREF_PNG_TEXTURE\<close> are false, and neither
  name is in the issues list of the report.
\<close>

theorem unraised_problem_flags:
  "(\<forall>st\<in>set (getInfo_trace env a).
      obj_get (flag_problem st) ''MOD_ERROR_MODDESC_DAMAGED_RECOVERABLE'' = Some False
      \<and> obj_get (flag_problem st) ''PREF_PNG_TEXTURE'' = Some False)
   \<and> ''MOD_ERROR_MODDESC_DAMAGED_RECOVERABLE'' \<notin> set (issues (getInfo env a))
   \<and> ''PREF_PNG_TEXTURE'' \<notin> set (issues (getInfo env a))"
proof -
  let ?k1 = "''MOD_ERROR_MODDESC_DAMAGED_RECOVERABLE''" and ?k2 = "''PREF_PNG_TEXTURE''"
  have nw: "?k1 \<notin> set problem_written" "?k2 \<notin> set problem_written"
           "?k1 \<notin> set info_written" "?k2 \<notin> set info_written"
    by (simp_all add: problem_written_def info_written_def)
  have init: "obj_get (flag_problem (constructor env a)) ?k1 = Some False"
             "obj_get (flag_problem (constructor env a)) ?k2 = Some False"
             "obj_get (flag_info (constructor env a)) ?k1 = None"
             "obj_get (flag_info (constructor env a)) ?k2 = None"
    by (simp_all add: constructor_def obj_get_set)
       (simp_all add: obj_get_def flag_problem_init_def flag_info_init_def)
  have tr: "obj_get (flag_problem st) ?k1 = Some False \<and> obj_get (flag_problem st) ?k2 = Some False"
    if "st \<in> set (getInfo_trace env a)" for st
    using trace_frame [OF that] nw init by (simp add: frame_def)
  have fin: "obj_get (flag_problem (getInfo_state env a)) ?k1 = Some False"
            "obj_get (flag_problem (getInfo_state env a)) ?k2 = Some False"
            "obj_get (flag_info (getInfo_state env a)) ?k1 = None"
            "obj_get (flag_info (getInfo_state env a)) ?k2 = None"
    using frame_getInfo_state [of env a] nw init by (simp_all add: frame_def)
  have "?k1 \<notin> set (issues (getInfo env a))" "?k2 \<notin> set (issues (getInfo env a))"
    using fin by (simp_all add: getInfo_def mem_issues [OF final_distinct])
  with tr show ?thesis by blast
qed

text \<open>
  Claim C9 at the last state of the run on a plain mod, which is a state of that run.
\<close>

theorem unraised_problem_flags_witness:
  "getInfo_state sample_env art_plain \<in> set (getInfo_trace sample_env art_plain)
   \<and> obj_get (flag_problem (getInfo_state sample_env art_plain))
        ''MOD_ERROR_MODDESC_DAMAGED_RECOVERABLE'' = Some False
   \<and> obj_get (flag_problem (getInfo_state sample_env art_plain)) ''PREF_PNG_TEXTURE'' = Some False"
proof -
  have m: "getInfo_state sample_env art_plain \<in> set (getInfo_trace sample_env art_plain)"
    using trace_last [of sample_env art_plain] trace_nonempty [of sample_env art_plain]
      last_in_set by metis
  then show ?thesis
    using unraised_problem_flags [of sample_env art_plain] by blast
qed

section \<open>Folders\<close>

text \<open>
  Claim C10. The constructor sets the info flag \<^verbatim>\<open>INFO_NO_MULTIPLAYER_UNZIPPED\<close> to the
  value of \<^verbatim>\<open>isFolder\<close>, and the name is in the issues list of the report exactly when the
  artifact is a folder, whatever the descriptor declares.
\<close>

theorem multiplayer_unzipped_flag:
  "obj_get (flag_info (constructor env a)) ''INFO_NO_MULTIPLAYER_UNZIPPED'' = Some (a_isFolder a)
   \<and> (''INFO_NO_MULTIPLAYER_UNZIPPED'' \<in> set (issues (getInfo env a))) = a_isFolder a"
proof -
  let ?k = "''INFO_NO_MULTIPLAYER_UNZIPPED''"
  have c: "obj_get (flag_info (constructor env a)) ?k = Some (a_isFolder a)"
    by (simp add: constructor_def obj_get_set)
  have "?k \<notin> set info_written"
    by (simp add: info_written_def)
  then have "obj_get (flag_info (getInfo_state env a)) ?k = Some (a_isFolder a)"
    using frame_getInfo_state [of env a] c by (simp add: frame_def)
  then have "(?k \<in> set (issues (getInfo env a))) = a_isFolder a"
    by (simp add: getInfo_def mem_issues [OF final_distinct])
  with c show ?thesis by simp
qed

end
